theory Spec2Isabelle
  imports Main "HOL-Library.Sublist"
begin

section \<open>Purview utility: selection set, storage hierarchy and bulk curation\<close>

text \<open>
  A shallow embedding of the client-side logic of the Microsoft Purview utility
  (\<^verbatim>\<open>Microsoft_Purview_Utility/src\<close>): the selection set of
  \<^verbatim>\<open>contexts/SelectedAssetsContext.tsx\<close>, the recently clicked list of the
  dashboard, the storage hierarchy of the browse-by-type page and the bulk curation
  handlers of the curate page.

  Conventions. React state is passed explicitly: a handler takes the state it reads and
  returns the state it sets. JavaScript strings are \<^typ>\<open>string\<close>. An object used as
  a dictionary (\<^verbatim>\<open>Record<string, T>\<close>) is a map \<^typ>\<open>string \<rightharpoonup> 'a\<close>; keys that
  name a property every object inherits (\<^verbatim>\<open>constructor\<close>, \<^verbatim>\<open>toString\<close>,
  \<^verbatim>\<open>__proto__\<close>, and the like) are outside the model. Field names follow the
  source; \<^verbatim>\<open>id\<close>, \<^verbatim>\<open>name\<close> and \<^verbatim>\<open>type\<close> carry a prefix because two
  records cannot share a field name and \<^term>\<open>id\<close> is the identity of HOL.
\<close>

subsection \<open>The selection set (\<^verbatim>\<open>SelectedAssetsContext.tsx\<close>)\<close>

text \<open>
  \<^verbatim>\<open>interface SelectedAsset { id: string; name: string; type: string; qualifiedName?: string }\<close>
\<close>

record SelectedAsset =
  sel_id :: string
  sel_name :: string
  sel_type :: string
  qualifiedName :: "string option"

text \<open>
  \<^verbatim>\<open>
  const addAsset = (asset) => {
    setSelectedAssets(prev => {
      if (prev.some(a => a.id === asset.id)) return prev;
      return [...prev, asset];
    });
  };
  const removeAsset = (id) => { setSelectedAssets(prev => prev.filter(a => a.id !== id)); };
  const clearAll = () => { setSelectedAssets([]); };
  const isSelected = (id) => selectedAssets.some(a => a.id === id);
  const getGuids = () => selectedAssets.map(a => a.id);
  \<close>
\<close>

definition isSelected :: "SelectedAsset list \<Rightarrow> string \<Rightarrow> bool" where
  "isSelected selectedAssets i = list_ex (\<lambda>a. sel_id a = i) selectedAssets"

definition addAsset :: "SelectedAsset \<Rightarrow> SelectedAsset list \<Rightarrow> SelectedAsset list" where
  "addAsset asset prev =
     (if list_ex (\<lambda>a. sel_id a = sel_id asset) prev then prev else prev @ [asset])"

definition removeAsset :: "string \<Rightarrow> SelectedAsset list \<Rightarrow> SelectedAsset list" where
  "removeAsset i prev = filter (\<lambda>a. sel_id a \<noteq> i) prev"

definition clearAll :: "SelectedAsset list \<Rightarrow> SelectedAsset list" where
  "clearAll prev = []"

definition getGuids :: "SelectedAsset list \<Rightarrow> string list" where
  "getGuids selectedAssets = map sel_id selectedAssets"

subsection \<open>The recently clicked list (\<^verbatim>\<open>Dashboard.tsx\<close>, \<^verbatim>\<open>handleAssetClick\<close>)\<close>

text \<open>
  The list lives in the \<^verbatim>\<open>recentAssets\<close> slot of the browser's local storage as a
  JSON array of ids. A slot is absent, holds text that \<^verbatim>\<open>JSON.parse\<close> rejects, or
  holds an array of strings (the only values this program writes).
\<close>

datatype slot = Absent | Unparsable | Stored "string list"

text \<open>
  \<^verbatim>\<open>
  const handleAssetClick = (assetId: string) => {
    const stored = localStorage.getItem('recentAssets');
    let recent: string[] = [];
    if (stored) {
      try { recent = JSON.parse(stored); } catch (e) { console.error(...); }
    }
    recent = [assetId, ...recent.filter(id => id !== assetId)].slice(0, 10);
    localStorage.setItem('recentAssets', JSON.stringify(recent));
    setRecentAssetIds(recent);
  };
  \<close>
  The handler returns the new content of the slot, which is also the new
  \<^verbatim>\<open>recentAssetIds\<close>.
\<close>

definition parseRecent :: "slot \<Rightarrow> string list" where
  "parseRecent stored = (case stored of Absent \<Rightarrow> [] | Unparsable \<Rightarrow> [] | Stored ids \<Rightarrow> ids)"

definition handleAssetClick :: "string \<Rightarrow> slot \<Rightarrow> slot" where
  "handleAssetClick assetId stored =
     (let recent = parseRecent stored
      in Stored (take 10 (assetId # filter (\<lambda>i. i \<noteq> assetId) recent)))"

subsection \<open>Strings\<close>

text \<open>
  The string operations of JavaScript that the hierarchy uses.
  \<^verbatim>\<open>s.includes(sub)\<close>: \<^verbatim>\<open>sub\<close> occurs in \<^verbatim>\<open>s\<close>.
  \<^verbatim>\<open>s.replace(pat, rep)\<close> with a string pattern: the first occurrence of
  \<^verbatim>\<open>pat\<close> is replaced, the rest of \<^verbatim>\<open>s\<close> is kept (the replacement used here
  has no \<^verbatim>\<open>$\<close>). \<^verbatim>\<open>s.lastIndexOf(c)\<close>: the index of the last \<^verbatim>\<open>c\<close>, or
  \<^verbatim>\<open>-1\<close>. \<^verbatim>\<open>s.substring(0, n)\<close>: the first \<^verbatim>\<open>n\<close> characters, none
  when \<^verbatim>\<open>n\<close> is negative.
\<close>

fun includes_str :: "string \<Rightarrow> string \<Rightarrow> bool" where
  "includes_str [] sub = (sub = [])"
| "includes_str (c # cs) sub = (prefix sub (c # cs) \<or> includes_str cs sub)"

fun replace_str :: "string \<Rightarrow> string \<Rightarrow> string \<Rightarrow> string" where
  "replace_str [] pat rep = (if pat = [] then rep else [])"
| "replace_str (c # cs) pat rep =
     (if prefix pat (c # cs) then rep @ drop (length pat) (c # cs)
      else c # replace_str cs pat rep)"

fun lastIndexOf :: "string \<Rightarrow> char \<Rightarrow> int" where
  "lastIndexOf [] c = - 1"
| "lastIndexOf (x # xs) c =
     (let r = lastIndexOf xs c
      in if 0 \<le> r then r + 1 else if x = c then 0 else - 1)"

definition substring0 :: "string \<Rightarrow> int \<Rightarrow> string" where
  "substring0 s n = take (nat n) s"

subsection \<open>The storage hierarchy (\<^verbatim>\<open>BrowseByAssetType\<close>)\<close>

text \<open>
  An element of \<^verbatim>\<open>allAssets\<close>. The hierarchy reads \<^verbatim>\<open>id\<close>, \<^verbatim>\<open>name\<close>,
  \<^verbatim>\<open>type\<close>, \<^verbatim>\<open>assetType\<close> and \<^verbatim>\<open>connection\<close> (the qualified name); the
  fields that are only displayed (description, owner, tags, ...) are left out.
\<close>

record asset =
  asset_id :: string
  asset_name :: string
  asset_type :: string
  assetType :: string
  connection :: string

text \<open>
  \<^verbatim>\<open>
  const assetsByType = filteredAssets.reduce((acc, asset) => {
    const type = asset.assetType;
    if (!acc[type]) { acc[type] = []; }
    acc[type].push(asset);
    return acc;
  }, {});
  \<close>
  The object is enumerated later (\<^verbatim>\<open>Object.entries\<close>), so it is an association
  list in insertion order. (JavaScript enumerates keys that are array indices first; the
  enumeration below keeps only keys that contain \<^verbatim>\<open>File\<close>, and those come in
  insertion order.)
\<close>

fun pushAt :: "string \<Rightarrow> 'a \<Rightarrow> (string \<times> 'a list) list \<Rightarrow> (string \<times> 'a list) list" where
  "pushAt k v [] = [(k, [v])]"
| "pushAt k v ((k', vs) # rest) =
     (if k = k' then (k', vs @ [v]) # rest else (k', vs) # pushAt k v rest)"

definition assetsByType :: "asset list \<Rightarrow> (string \<times> asset list) list" where
  "assetsByType filteredAssets = foldl (\<lambda>acc a. pushAt (assetType a) a acc) [] filteredAssets"

text \<open>\<^verbatim>\<open>assetsByType[t] || []\<close>\<close>

definition byType :: "(string \<times> asset list) list \<Rightarrow> string \<Rightarrow> asset list" where
  "byType acc t = (case map_of acc t of None \<Rightarrow> [] | Some xs \<Rightarrow> xs)"

text \<open>
  \<^verbatim>\<open>
  const allStorageAssets = [
    ...assetsByType['Azure Storage Account'] || [],
    ...assetsByType['Azure Blob Storage'] || [],
    ...assetsByType['Azure Blob Container'] || [],
    ...assetsByType['Azure Blob'] || [],
    ...assetsByType['CSV File'] || [],
    ...assetsByType['JSON File'] || [],
    ...assetsByType['PARQUET File'] || [],
    ...assetsByType['TXT File'] || [],
    ...assetsByType['XML File'] || [],
    ...Object.entries(assetsByType)
      .filter(([t]) => t.includes('File') &&
         !['CSV File', 'JSON File', 'PARQUET File', 'TXT File', 'XML File'].includes(t))
      .flatMap(([, assets]) => assets)
  ];
  \<close>
\<close>

definition knownFileTypes :: "string list" where
  "knownFileTypes = [''CSV File'', ''JSON File'', ''PARQUET File'', ''TXT File'', ''XML File'']"

definition allStorageAssets :: "(string \<times> asset list) list \<Rightarrow> asset list" where
  "allStorageAssets acc =
     byType acc ''Azure Storage Account''
     @ byType acc ''Azure Blob Storage''
     @ byType acc ''Azure Blob Container''
     @ byType acc ''Azure Blob''
     @ byType acc ''CSV File''
     @ byType acc ''JSON File''
     @ byType acc ''PARQUET File''
     @ byType acc ''TXT File''
     @ byType acc ''XML File''
     @ concat (map snd
         (filter (\<lambda>(t, assets). includes_str t ''File'' \<and> t \<notin> set knownFileTypes) acc))"

text \<open>
  \<^verbatim>\<open>
  const buildStorageHierarchy = (storageAssets) => {
    const accounts = [];
    const accountChildren = {};
    const blobStorageChildren = {};
    const containerChildren = {};
    storageAssets.forEach(asset => {
      if (asset.assetType === 'Azure Storage Account') {
        accounts.push(asset);
        accountChildren[asset.connection] = [];
      } else if (asset.assetType === 'Azure Blob Storage') {
        const accountUrl = asset.connection.replace('.blob.core.windows.net', '.core.windows.net');
        if (!accountChildren[accountUrl]) accountChildren[accountUrl] = [];
        accountChildren[accountUrl].push(asset);
        blobStorageChildren[asset.connection] = [];
      } else if (asset.assetType === 'Azure Blob Container') {
        const blobStorageUrl = asset.connection.substring(0, asset.connection.lastIndexOf('/'));
        if (!blobStorageChildren[blobStorageUrl]) blobStorageChildren[blobStorageUrl] = [];
        blobStorageChildren[blobStorageUrl].push(asset);
        containerChildren[asset.connection] = [];
      } else if (asset.assetType?.includes('File') || asset.assetType === 'Azure Blob') {
        const containerUrl = asset.connection.substring(0, asset.connection.lastIndexOf('/'));
        if (!containerChildren[containerUrl]) containerChildren[containerUrl] = [];
        containerChildren[containerUrl].push(asset);
      }
    });
    return { accounts, accountChildren, blobStorageChildren, containerChildren };
  };
  \<close>
\<close>

record hierarchy =
  accounts :: "asset list"
  accountChildren :: "string \<rightharpoonup> asset list"
  blobStorageChildren :: "string \<rightharpoonup> asset list"
  containerChildren :: "string \<rightharpoonup> asset list"

text \<open>\<^verbatim>\<open>m[k] || []\<close>\<close>

definition childrenAt :: "(string \<rightharpoonup> asset list) \<Rightarrow> string \<Rightarrow> asset list" where
  "childrenAt m k = (case m k of None \<Rightarrow> [] | Some cs \<Rightarrow> cs)"

text \<open>\<^verbatim>\<open>if (!m[k]) m[k] = []; m[k].push(asset);\<close>\<close>

definition push :: "(string \<rightharpoonup> asset list) \<Rightarrow> string \<Rightarrow> asset \<Rightarrow> (string \<rightharpoonup> asset list)" where
  "push m k a = m(k \<mapsto> childrenAt m k @ [a])"

definition accountUrlOf :: "string \<Rightarrow> string" where
  "accountUrlOf c = replace_str c ''.blob.core.windows.net'' ''.core.windows.net''"

definition parentUrlOf :: "string \<Rightarrow> string" where
  "parentUrlOf c = substring0 c (lastIndexOf c CHR ''/'')"

definition organize :: "hierarchy \<Rightarrow> asset \<Rightarrow> hierarchy" where
  "organize h a =
     (if assetType a = ''Azure Storage Account'' then
        h\<lparr>accounts := accounts h @ [a],
          accountChildren := (accountChildren h)(connection a \<mapsto> [])\<rparr>
      else if assetType a = ''Azure Blob Storage'' then
        (let accountUrl = accountUrlOf (connection a)
         in h\<lparr>accountChildren := push (accountChildren h) accountUrl a,
              blobStorageChildren := (blobStorageChildren h)(connection a \<mapsto> [])\<rparr>)
      else if assetType a = ''Azure Blob Container'' then
        (let blobStorageUrl = parentUrlOf (connection a)
         in h\<lparr>blobStorageChildren := push (blobStorageChildren h) blobStorageUrl a,
              containerChildren := (containerChildren h)(connection a \<mapsto> [])\<rparr>)
      else if includes_str (assetType a) ''File'' \<or> assetType a = ''Azure Blob'' then
        (let containerUrl = parentUrlOf (connection a)
         in h\<lparr>containerChildren := push (containerChildren h) containerUrl a\<rparr>)
      else h)"

definition emptyHierarchy :: hierarchy where
  "emptyHierarchy = \<lparr>accounts = [], accountChildren = Map.empty,
     blobStorageChildren = Map.empty, containerChildren = Map.empty\<rparr>"

definition buildStorageHierarchy :: "asset list \<Rightarrow> hierarchy" where
  "buildStorageHierarchy storageAssets = foldl organize emptyHierarchy storageAssets"

text \<open>
  \<^verbatim>\<open>renderStorageNode(asset, children, level, childrenMap)\<close> draws one node and, below
  it, one node for each child, whose own children are looked up by the child's kind:
  \<^verbatim>\<open>
  let childChildren = [];
  if (child.assetType === 'Azure Storage Account') {
    childChildren = childrenMap.accountChildren?.[child.connection] || [];
  } else if (child.assetType === 'Azure Blob Storage') {
    childChildren = childrenMap.blobStorageChildren?.[child.connection] || [];
  } else if (child.assetType === 'Azure Blob Container') {
    childChildren = childrenMap.containerChildren?.[child.connection] || [];
  }
  return renderStorageNode(child, childChildren, level + 1, childrenMap);
  \<close>
  A node of the tree is the entity and the nodes below it; the tree is the one the page
  shows with every node expanded (\<^verbatim>\<open>expandedNodes\<close> only hides the part below a
  node). The recursion of the source has no bound of its own, so the model takes fuel and
  returns \<^term>\<open>None\<close> when it runs out.
\<close>

datatype node = Node (entity: asset) (subnodes: "node list")

definition childChildren :: "hierarchy \<Rightarrow> asset \<Rightarrow> asset list" where
  "childChildren h child =
     (if assetType child = ''Azure Storage Account'' then
        childrenAt (accountChildren h) (connection child)
      else if assetType child = ''Azure Blob Storage'' then
        childrenAt (blobStorageChildren h) (connection child)
      else if assetType child = ''Azure Blob Container'' then
        childrenAt (containerChildren h) (connection child)
      else [])"

fun renderStorageNode :: "nat \<Rightarrow> hierarchy \<Rightarrow> asset \<Rightarrow> asset list \<Rightarrow> node option" where
  "renderStorageNode 0 h a children = None"
| "renderStorageNode (Suc fuel) h a children =
     map_option (Node a)
       (those (map (\<lambda>child. renderStorageNode fuel h child (childChildren h child)) children))"

text \<open>
  The top level of the page:
  \<^verbatim>\<open>
  accounts.map(account =>
    renderStorageNode(account, accountChildren[account.connection] || [], 0,
      { accountChildren, blobStorageChildren, containerChildren }))
  \<close>
\<close>

definition renderHierarchy :: "nat \<Rightarrow> hierarchy \<Rightarrow> node list option" where
  "renderHierarchy fuel h =
     those (map (\<lambda>account.
        renderStorageNode fuel h account (childrenAt (accountChildren h) (connection account)))
       (accounts h))"

text \<open>
  The forest the page shows for \<^verbatim>\<open>filteredAssets\<close>. The page draws the hierarchy
  card when it comes to the type \<^verbatim>\<open>Azure Storage Account\<close> in its list of types,
  and draws no card for the other storage types
  (\<^verbatim>\<open>if (isStorageType) return null\<close>); without an account there is no card, which
  is the empty forest.
\<close>

definition storageForest :: "nat \<Rightarrow> asset list \<Rightarrow> node list option" where
  "storageForest fuel filteredAssets =
     renderHierarchy fuel (buildStorageHierarchy (allStorageAssets (assetsByType filteredAssets)))"

text \<open>The entities of a tree and of a forest, parents before children.\<close>

fun nodeAssets :: "node \<Rightarrow> asset list" where
  "nodeAssets (Node a ns) = a # concat (map nodeAssets ns)"

definition forestAssets :: "node list \<Rightarrow> asset list" where
  "forestAssets ns = concat (map nodeAssets ns)"

text \<open>
  Selecting in the tree: inside \<^verbatim>\<open>renderStorageNode(asset, children, ...)\<close>
  \<^verbatim>\<open>
  const hasChildren = children && children.length > 0;
  const selected = isSelected(asset.id);
  const isSelectable = !hasChildren; // Only leaf nodes are selectable
  const handleSelect = (e) => {
    e.stopPropagation();
    if (!isSelectable) return;
    if (selected) { removeAsset(asset.id); }
    else { addAsset({ id: asset.id, name: asset.name, type: asset.type,
                      qualifiedName: asset.connection }); }
  };
  \<close>
  The handler takes the selection set and returns the one it leaves.
\<close>

definition handleSelect :: "asset \<Rightarrow> asset list \<Rightarrow> SelectedAsset list \<Rightarrow> SelectedAsset list" where
  "handleSelect a children selectedAssets =
     (let hasChildren = (children \<noteq> []);
          selected = isSelected selectedAssets (asset_id a);
          isSelectable = \<not> hasChildren
      in if \<not> isSelectable then selectedAssets
         else if selected then removeAsset (asset_id a) selectedAssets
         else addAsset \<lparr>sel_id = asset_id a, sel_name = asset_name a, sel_type = asset_type a,
                         qualifiedName = Some (connection a)\<rparr> selectedAssets)"

text \<open>
  Notions used to state what the hierarchy holds. The lists below a key of the three
  maps are \<open>well kinded\<close> when the first map lists blob services only, the second
  containers only and the third none of the three upper kinds. The tree of an account is
  then four levels deep at most, and can be written level by level, without fuel.
\<close>

definition wellKinded :: "hierarchy \<Rightarrow> bool" where
  "wellKinded h \<longleftrightarrow>
     (\<forall>k. \<forall>c \<in> set (childrenAt (accountChildren h) k). assetType c = ''Azure Blob Storage'')
   \<and> (\<forall>k. \<forall>c \<in> set (childrenAt (blobStorageChildren h) k).
         assetType c = ''Azure Blob Container'')
   \<and> (\<forall>k. \<forall>c \<in> set (childrenAt (containerChildren h) k).
         assetType c \<noteq> ''Azure Storage Account'' \<and> assetType c \<noteq> ''Azure Blob Storage''
         \<and> assetType c \<noteq> ''Azure Blob Container'')"

definition fileNode :: "asset \<Rightarrow> node" where
  "fileNode f = Node f []"

definition containerNode :: "hierarchy \<Rightarrow> asset \<Rightarrow> node" where
  "containerNode h c = Node c (map fileNode (childrenAt (containerChildren h) (connection c)))"

definition blobStorageNode :: "hierarchy \<Rightarrow> asset \<Rightarrow> node" where
  "blobStorageNode h b =
     Node b (map (containerNode h) (childrenAt (blobStorageChildren h) (connection b)))"

definition accountNode :: "hierarchy \<Rightarrow> asset \<Rightarrow> node" where
  "accountNode h a =
     Node a (map (blobStorageNode h) (childrenAt (accountChildren h) (connection a)))"

text \<open>
  The last part of \<^verbatim>\<open>allStorageAssets\<close>, after the containers, holds the entities
  that take the fourth branch of \<^verbatim>\<open>buildStorageHierarchy\<close>: the type is none of the
  three upper kinds and contains \<^verbatim>\<open>File\<close> or is \<^verbatim>\<open>Azure Blob\<close>.
\<close>

definition fileAssets :: "(string \<times> asset list) list \<Rightarrow> asset list" where
  "fileAssets acc =
     byType acc ''Azure Blob''
     @ byType acc ''CSV File''
     @ byType acc ''JSON File''
     @ byType acc ''PARQUET File''
     @ byType acc ''TXT File''
     @ byType acc ''XML File''
     @ concat (map snd
         (filter (\<lambda>(t, assets). includes_str t ''File'' \<and> t \<notin> set knownFileTypes) acc))"

text \<open>The part of \<^verbatim>\<open>allStorageAssets\<close> after the accounts and the blob services.\<close>

definition lowerAssets :: "(string \<times> asset list) list \<Rightarrow> asset list" where
  "lowerAssets acc = byType acc ''Azure Blob Container'' @ fileAssets acc"

definition isFileKind :: "asset \<Rightarrow> bool" where
  "isFileKind x \<longleftrightarrow>
     assetType x \<noteq> ''Azure Storage Account'' \<and> assetType x \<noteq> ''Azure Blob Storage''
     \<and> assetType x \<noteq> ''Azure Blob Container''
     \<and> (includes_str (assetType x) ''File'' \<or> assetType x = ''Azure Blob'')"

text \<open>
  The computed parent path of an entity below the account level: the key under which
  \<^verbatim>\<open>buildStorageHierarchy\<close> files the entity.
\<close>

definition parentKey :: "asset \<Rightarrow> string" where
  "parentKey x =
     (if assetType x = ''Azure Blob Storage'' then accountUrlOf (connection x)
      else parentUrlOf (connection x))"

subsection \<open>The recently clicked list, written from two pages\<close>

text \<open>
  The browse page writes the same slot (\<^verbatim>\<open>BrowseAssets.tsx\<close>):
  \<^verbatim>\<open>
  const handleAssetClick = (asset: any) => {
    if (asset.assetType === 'Azure Blob Container') {
      setContainerFilter(asset.connection);
      return;
    }
    const stored = localStorage.getItem('recentAssets');
    let recent: string[] = [];
    if (stored) {
      try { recent = JSON.parse(stored); } catch (e) { console.error(...); }
    }
    recent = [asset.id, ...recent.filter(id => id !== asset.id)].slice(0, 10);
    localStorage.setItem('recentAssets', JSON.stringify(recent));
  };
  \<close>
\<close>

definition browseAssetClick :: "asset \<Rightarrow> slot \<Rightarrow> slot" where
  "browseAssetClick a stored =
     (if assetType a = ''Azure Blob Container'' then stored
      else
        (let recent = parseRecent stored
         in Stored (take 10 (asset_id a # filter (\<lambda>i. i \<noteq> asset_id a) recent))))"

text \<open>A click on the dashboard or on the browse page, and the slot after a sequence of
  clicks, oldest first.\<close>

datatype click = OnDashboard string | OnBrowse asset

definition clickOn :: "slot \<Rightarrow> click \<Rightarrow> slot" where
  "clickOn stored c =
     (case c of OnDashboard assetId \<Rightarrow> handleAssetClick assetId stored
      | OnBrowse a \<Rightarrow> browseAssetClick a stored)"

definition clicks :: "click list \<Rightarrow> slot \<Rightarrow> slot" where
  "clicks cs stored = foldl clickOn stored cs"

subsection \<open>The curate page: requests, responses and toasts\<close>

text \<open>
  The handlers of the curate page talk to the backend with
  \<^verbatim>\<open>fetch(url, { method: "POST", headers: ..., body: JSON.stringify({...}) })\<close>. A
  request is its URL and the fields of its JSON body, in the order of the source.
\<close>

datatype json = JStr string | JStrs "string list" | JBool bool

record request =
  url :: string
  body :: "(string \<times> json) list"

text \<open>
  What the handlers read of a response: \<^verbatim>\<open>response.ok\<close> and, from
  \<^verbatim>\<open>await response.json()\<close>, the fields \<^verbatim>\<open>data.success\<close> and
  \<^verbatim>\<open>data.error\<close>. A body that is not JSON makes \<^verbatim>\<open>response.json()\<close> reject
  with an error message.
\<close>

record data =
  success :: bool
  error :: "string option"

datatype decoded = NotJson string | Json data

record response =
  ok :: bool
  payload :: decoded

text \<open>
  \<^verbatim>\<open>await fetch(...)\<close> either rejects (the request did not get through; the error
  carries a message) or resolves with a response, whatever its status.
\<close>

datatype fetch_result = Rejected string | Resolved response

text \<open>
  The backend is not part of this program. It is any state machine that answers a
  request from its state and moves to a next state.
\<close>

type_synonym 's server = "'s \<Rightarrow> request \<Rightarrow> fetch_result \<times> 's"

text \<open>\<^verbatim>\<open>toast({ title, description, variant })\<close>; no variant is the default one.\<close>

record toast =
  title :: string
  description :: string
  variant :: "string option"

text \<open>
  What a handler run leaves behind: the requests it sent, in order; the toasts it showed;
  whether it started the refresh of the existing values
  (\<^verbatim>\<open>fetchExistingTags()\<close>, \<^verbatim>\<open>fetchExistingContacts()\<close>, not awaited); the state
  of the backend after the requests it sent. The flags \<^verbatim>\<open>isSubmitting\<close> and
  \<^verbatim>\<open>lastResult\<close> are not modelled.
\<close>

record 's outcome =
  sent :: "request list"
  toasts :: "toast list"
  refreshed :: bool
  backend :: 's

text \<open>A number inside a template string: its decimal digits.\<close>

fun decimal :: "nat \<Rightarrow> string" where
  "decimal n =
     (if n < 10 then [char_of (48 + n)]
      else decimal (n div 10) @ [char_of (48 + n mod 10)])"

declare decimal.simps [simp del]

text \<open>\<^verbatim>\<open>data.error || fallback\<close>: an absent or empty message gives the fallback.\<close>

definition errorOr :: "string option \<Rightarrow> string \<Rightarrow> string" where
  "errorOr e fallback = (case e of None \<Rightarrow> fallback | Some m \<Rightarrow> if m = [] then fallback else m)"

subsection \<open>Removing all tags (\<^verbatim>\<open>handleRemoveAllTags\<close>)\<close>

text \<open>
  \<^verbatim>\<open>
  const handleRemoveAllTags = async () => {
    if (selectedAssets.length === 0) { toast({ title: "No Assets Selected", ... }); return; }
    if (existingTags.length === 0) { toast({ title: "No Tags to Remove", ... }); return; }
    if (!confirm(`Are you sure you want to remove ALL tags from ... asset(s)?`)) { return; }
    setIsSubmitting(true);
    setLastResult(null);
    try {
      // Remove all tags one by one
      for (const tag of existingTags) {
        await fetch("http://localhost:8000/api/curate/remove-tags", {
          method: "POST", headers: {...},
          body: JSON.stringify({ guids: getGuids(), tag: tag }),
        });
      }
      toast({
        title: " All Tags Removed Successfully",
        description: `Removed ${existingTags.length} tag(s) from ${selectedAssets.length} asset(s)`,
        duration: 5000, variant: "success" as any,
      });
      fetchExistingTags();
    } catch (error) {
      const errorMessage = error instanceof Error ? error.message : "Unknown error occurred";
      toast({ title: " Error Removing Tags", description: errorMessage,
              variant: "destructive", duration: 7000 });
    } finally { setIsSubmitting(false); }
  };
  \<close>
  \<open>confirmed\<close> is the user's answer to the \<^verbatim>\<open>confirm\<close> dialog.
\<close>

definition removeTagsRequest :: "string list \<Rightarrow> string \<Rightarrow> request" where
  "removeTagsRequest guids tag =
     \<lparr>url = ''http://localhost:8000/api/curate/remove-tags'',
      body = [(''guids'', JStrs guids), (''tag'', JStr tag)]\<rparr>"

text \<open>
  The \<^verbatim>\<open>for\<close> loop: the requests sent, the message of the rejection that ended the
  loop (if one did), and the backend afterwards. The response of a request that resolves
  is not read.
\<close>

fun removeEachTag ::
  "'s server \<Rightarrow> 's \<Rightarrow> string list \<Rightarrow> string list \<Rightarrow> request list \<times> string option \<times> 's" where
  "removeEachTag srv s guids [] = ([], None, s)"
| "removeEachTag srv s guids (tag # tags) =
     (case srv s (removeTagsRequest guids tag) of
        (Rejected msg, s') \<Rightarrow> ([removeTagsRequest guids tag], Some msg, s')
      | (Resolved r, s') \<Rightarrow>
          (case removeEachTag srv s' guids tags of
             (rqs, e, s'') \<Rightarrow> (removeTagsRequest guids tag # rqs, e, s'')))"

definition handleRemoveAllTags ::
  "bool \<Rightarrow> 's server \<Rightarrow> 's \<Rightarrow> SelectedAsset list \<Rightarrow> string list \<Rightarrow> 's outcome" where
  "handleRemoveAllTags confirmed srv s selectedAssets existingTags =
     (if selectedAssets = [] then
        \<lparr>sent = [],
         toasts = [\<lparr>title = ''No Assets Selected'',
                    description = ''Please select assets to curate from the Assets page'',
                    variant = Some ''destructive''\<rparr>],
         refreshed = False, backend = s\<rparr>
      else if existingTags = [] then
        \<lparr>sent = [],
         toasts = [\<lparr>title = ''No Tags to Remove'',
                    description = ''There are no tags on the selected assets'',
                    variant = Some ''destructive''\<rparr>],
         refreshed = False, backend = s\<rparr>
      else if \<not> confirmed then
        \<lparr>sent = [], toasts = [], refreshed = False, backend = s\<rparr>
      else
        (case removeEachTag srv s (getGuids selectedAssets) existingTags of
           (rqs, None, s') \<Rightarrow>
             \<lparr>sent = rqs,
              toasts = [\<lparr>title = '' All Tags Removed Successfully'',
                         description = ''Removed '' @ decimal (length existingTags)
                           @ '' tag(s) from '' @ decimal (length selectedAssets) @ '' asset(s)'',
                         variant = Some ''success''\<rparr>],
              refreshed = True, backend = s'\<rparr>
         | (rqs, Some errorMessage, s') \<Rightarrow>
             \<lparr>sent = rqs,
              toasts = [\<lparr>title = '' Error Removing Tags'', description = errorMessage,
                         variant = Some ''destructive''\<rparr>],
              refreshed = False, backend = s'\<rparr>))"

subsection \<open>Removing contacts (\<^verbatim>\<open>handleRemoveSpecificOwner\<close> and its siblings)\<close>








subsection \<open>Column classifications and suggestions (\<^verbatim>\<open>handleAutoClassify\<close>)\<close>

text \<open>
  The pending classifications of the columns are one piece of state,
  \<^verbatim>\<open>columnClassifications: { [columnGuid: string]: string[] }\<close>. It is written by the
  schema fetch (the classifications already in the catalog), by the suggestions and by
  the user's choice in the select box of a column:
  \<^verbatim>\<open>
  onValueChange={(value) => {
    setColumnClassifications(prev => ({ ...prev, [column.guid]: value ? [value] : [] }));
  }}
  \<close>
\<close>

record curate =
  columnClassifications :: "string \<rightharpoonup> string list"
  showSchemaView :: bool

definition editColumn :: "string \<Rightarrow> string \<Rightarrow> curate \<Rightarrow> curate" where
  "editColumn columnGuid v st =
     st\<lparr>columnClassifications :=
          (columnClassifications st)(columnGuid \<mapsto> (if v \<noteq> [] then [v] else []))\<rparr>"

text \<open>
  The answer to an awaited \<^verbatim>\<open>fetch\<close> followed by \<^verbatim>\<open>response.json()\<close>: either
  of the two rejects with a message, or there is \<^verbatim>\<open>response.ok\<close> and the decoded
  body.
\<close>

datatype 'd reply = Thrown string | Reply bool 'd

text \<open>
  The body of \<^verbatim>\<open>/api/curate/get-schema\<close>:
  \<^verbatim>\<open>{ success, error, schema_data: { [guid]: { schema: [{ guid, name, existing_classifications }] } } }\<close>
  and of \<^verbatim>\<open>/api/curate/auto-classify\<close>:
  \<^verbatim>\<open>{ success, error, suggestions: { [entityGuid]: { has_schema, classifications:
       { [columnGuid]: { classifications: string[] } } } },
     total_columns, total_classifications, total_assets }\<close>.
  An optional field is \<^term>\<open>None\<close> when it is missing. Objects are enumerated in
  insertion order, so they are association lists.
\<close>

record column =
  col_guid :: string
  col_name :: string
  existing_classifications :: "string list option"

record assetSchema =
  schema :: "column list option"

record schema_body = data +
  schema_data :: "(string \<times> assetSchema) list option"

record columnInfo =
  info_classifications :: "string list option"

record entityData =
  has_schema :: bool
  classifications :: "(string \<times> columnInfo) list option"

record suggest_body = data +
  suggestions :: "(string \<times> entityData) list option"
  total_columns :: nat
  total_classifications :: nat
  total_assets :: nat

text \<open>
  \<^verbatim>\<open>
  const fetchSchema = async () => {
    if (selectedAssets.length === 0) return;
    setIsLoadingSchema(true);
    try {
      const response = await fetch(".../api/curate/get-schema", {... guids: getGuids() ...});
      const data = await response.json();
      if (response.ok && data.success) {
        const schemaData = data.schema_data || {};
        setSchemaData(schemaData);
        const existingColumnClassifications = {};
        Object.values(schemaData).forEach((assetData) => {
          if (assetData.schema && Array.isArray(assetData.schema)) {
            assetData.schema.forEach((column) => {
              if (column.existing_classifications && column.existing_classifications.length > 0) {
                existingColumnClassifications[column.guid] = column.existing_classifications;
              }
            });
          }
        });
        setColumnClassifications(existingColumnClassifications);
        setShowSchemaView(true);
      } else { throw new Error(data.error || "Failed to fetch schema"); }
    } catch (error) {
      toast({ title: " Error Fetching Schema",
              description: error instanceof Error ? error.message : "Unknown error occurred",
              variant: "destructive" });
    } finally { setIsLoadingSchema(false); }
  };
  \<close>
\<close>

definition existingColumnClassifications ::
  "(string \<times> assetSchema) list \<Rightarrow> (string \<rightharpoonup> string list)" where
  "existingColumnClassifications schemaData =
     foldl (\<lambda>m (g, assetData).
        case schema assetData of
          None \<Rightarrow> m
        | Some cols \<Rightarrow>
            foldl (\<lambda>m c.
               case existing_classifications c of
                 None \<Rightarrow> m
               | Some cs \<Rightarrow> if cs \<noteq> [] then m(col_guid c \<mapsto> cs) else m) m cols)
       Map.empty schemaData"

definition fetchSchema ::
  "SelectedAsset list \<Rightarrow> schema_body reply \<Rightarrow> curate \<Rightarrow> curate \<times> toast list" where
  "fetchSchema selectedAssets answer st =
     (if selectedAssets = [] then (st, [])
      else case answer of
        Thrown msg \<Rightarrow>
          (st, [\<lparr>title = '' Error Fetching Schema'', description = msg,
                  variant = Some ''destructive''\<rparr>])
      | Reply isOk d \<Rightarrow>
          (if isOk \<and> success d then
             (st\<lparr>columnClassifications :=
                   existingColumnClassifications
                     (case schema_data d of None \<Rightarrow> [] | Some sd \<Rightarrow> sd),
                 showSchemaView := True\<rparr>, [])
           else
             (st, [\<lparr>title = '' Error Fetching Schema'',
                     description = errorOr (error d) ''Failed to fetch schema'',
                     variant = Some ''destructive''\<rparr>])))"

text \<open>
  \<^verbatim>\<open>
  const handleAutoClassify = async () => {
    if (selectedAssets.length === 0) { toast({ title: "No Assets Selected", ... }); return; }
    setIsAutoClassifying(true);
    try {
      const response = await fetch(".../api/curate/auto-classify", {... apply: false ...});
      const data = await response.json();
      if (response.ok && data.success) {
        setAutoClassificationSuggestions(data.suggestions);
        const totalColumns = data.total_columns || 0;
        const totalClassifications = data.total_classifications || 0;
        const totalAssets = data.total_assets || 0;
        if (totalClassifications > 0) {
          if (totalColumns > 0) {
            await fetchSchema();
            // Pre-populate columnClassifications with the AI suggestions
            const suggestions = data.suggestions || {};
            const newColumnClassifications = {};
            Object.entries(suggestions).forEach(([entityGuid, entityData]) => {
              if (entityData.has_schema && entityData.classifications) {
                Object.entries(entityData.classifications).forEach(([columnGuid, columnInfo]) => {
                  if (columnInfo.classifications && columnInfo.classifications.length > 0) {
                    newColumnClassifications[columnGuid] = columnInfo.classifications;
                  }
                });
              }
            });
            setColumnClassifications(newColumnClassifications);
            setShowSchemaView(true);
            toast({ title: " Analysis Complete", description: `Found ... column(s). ...` });
          } else if (totalAssets > 0) {
            toast({ title: " Analysis Complete", description: `Found ... asset(s) ...` });
          }
        } else {
          toast({ title: "No Suggestions Found", description: "No automatic ..." });
        }
      } else { throw new Error(data.error || "Failed to analyze assets"); }
    } catch (error) {
      toast({ title: " Analysis Error", description: errorMessage, variant: "destructive" });
    } finally { setIsAutoClassifying(false); }
  };
  \<close>
  The handler takes the answers to its two requests (the second is only read when the
  schema is fetched) and the state, and returns the state and the toasts.
\<close>

definition newColumnClassifications ::
  "(string \<times> entityData) list \<Rightarrow> (string \<rightharpoonup> string list)" where
  "newColumnClassifications sugg =
     foldl (\<lambda>m (entityGuid, entityData).
        if has_schema entityData then
          (case classifications entityData of
             None \<Rightarrow> m
           | Some cols \<Rightarrow>
               foldl (\<lambda>m (columnGuid, columnInfo).
                  case info_classifications columnInfo of
                    None \<Rightarrow> m
                  | Some cs \<Rightarrow> if cs \<noteq> [] then m(columnGuid \<mapsto> cs) else m) m cols)
        else m)
       Map.empty sugg"

definition handleAutoClassify ::
  "SelectedAsset list \<Rightarrow> suggest_body reply \<Rightarrow> schema_body reply \<Rightarrow> curate
     \<Rightarrow> curate \<times> toast list" where
  "handleAutoClassify selectedAssets answer schemaAnswer st =
     (if selectedAssets = [] then
        (st, [\<lparr>title = ''No Assets Selected'',
                description = ''Please select assets to analyze'',
                variant = Some ''destructive''\<rparr>])
      else case answer of
        Thrown msg \<Rightarrow>
          (st, [\<lparr>title = '' Analysis Error'', description = msg,
                  variant = Some ''destructive''\<rparr>])
      | Reply isOk d \<Rightarrow>
          (if isOk \<and> success d then
             (if total_classifications d > 0 then
                (if total_columns d > 0 then
                   (case fetchSchema selectedAssets schemaAnswer st of
                      (st', schemaToasts) \<Rightarrow>
                        (st'\<lparr>columnClassifications :=
                               newColumnClassifications
                                 (case suggestions d of None \<Rightarrow> [] | Some sg \<Rightarrow> sg),
                             showSchemaView := True\<rparr>,
                         schemaToasts @
                         [\<lparr>title = '' Analysis Complete'',
                           description = ''Found '' @ decimal (total_classifications d)
                             @ '' suggested classification(s) for ''
                             @ decimal (total_columns d)
                             @ '' column(s). Review the suggestions below and click Apply to save them.'',
                           variant = None\<rparr>]))
                 else if total_assets d > 0 then
                   (st, [\<lparr>title = '' Analysis Complete'',
                           description = ''Found '' @ decimal (total_classifications d)
                             @ '' suggested classification(s) for ''
                             @ decimal (total_assets d)
                             @ '' asset(s) (no schema available). Use the classification selection below to apply them.'',
                           variant = None\<rparr>])
                 else (st, []))
              else
                (st, [\<lparr>title = ''No Suggestions Found'',
                        description = ''No automatic classifications could be suggested based on the asset/column names'',
                        variant = None\<rparr>]))
           else
             (st, [\<lparr>title = '' Analysis Error'',
                     description = errorOr (error d) ''Failed to analyze assets'',
                     variant = Some ''destructive''\<rparr>])))"

text \<open>
  \<open>cs\<close> is a non-empty suggestion for the column \<open>columnGuid\<close>: some entity
  with a schema lists it for that column.
\<close>

definition suggestedFor :: "(string \<times> entityData) list \<Rightarrow> string \<Rightarrow> string list \<Rightarrow> bool" where
  "suggestedFor sugg columnGuid cs =
     (cs \<noteq> [] \<and>
      list_ex (\<lambda>(entityGuid, entityData).
         has_schema entityData \<and>
         (case classifications entityData of
            None \<Rightarrow> False
          | Some cols \<Rightarrow>
              list_ex (\<lambda>(c, columnInfo).
                 c = columnGuid \<and> info_classifications columnInfo = Some cs) cols)) sugg)"

subsection \<open>Runs of the backend\<close>

text \<open>
  Notions to speak about a sequence of requests sent one after the other:
  the backend resolves each of them (rejects none), it resolves each of them with a
  success, and the state of the backend after them.
\<close>

fun answersAll :: "'s server \<Rightarrow> 's \<Rightarrow> request list \<Rightarrow> bool" where
  "answersAll srv s [] = True"
| "answersAll srv s (rq # rqs) =
     (case srv s rq of
        (Rejected msg, s') \<Rightarrow> False
      | (Resolved r, s') \<Rightarrow> answersAll srv s' rqs)"

text \<open>The backend resolves each request with a success: \<^verbatim>\<open>response.ok && data.success\<close>.\<close>

fun succeedsAll :: "'s server \<Rightarrow> 's \<Rightarrow> request list \<Rightarrow> bool" where
  "succeedsAll srv s [] = True"
| "succeedsAll srv s (rq # rqs) =
     (case srv s rq of
        (Rejected msg, s') \<Rightarrow> False
      | (Resolved r, s') \<Rightarrow>
          ok r \<and> (case payload r of NotJson msg \<Rightarrow> False | Json d \<Rightarrow> success d)
          \<and> succeedsAll srv s' rqs)"

fun backendAfter :: "'s server \<Rightarrow> 's \<Rightarrow> request list \<Rightarrow> 's" where
  "backendAfter srv s [] = s"
| "backendAfter srv s (rq # rqs) = backendAfter srv (snd (srv s rq)) rqs"

subsection \<open>Example backends\<close>

text \<open>
  Three backends for the evaluations below: one resolves every request with a success
  body and counts the requests, one rejects the request that removes a given tag, one
  answers that request with an error status and body; both resolve the other requests
  with a success.
\<close>

definition okResponse :: response where
  "okResponse = \<lparr>ok = True, payload = Json \<lparr>success = True, error = None\<rparr>\<rparr>"

definition countingBackend :: "nat server" where
  "countingBackend s rq = (Resolved okResponse, Suc s)"

definition failingOn :: "string \<Rightarrow> nat server" where
  "failingOn tag s rq =
     (if (''tag'', JStr tag) \<in> set (body rq) then (Rejected ''Failed to fetch'', Suc s)
      else (Resolved okResponse, Suc s))"

definition refusingOn :: "string \<Rightarrow> nat server" where
  "refusingOn tag s rq =
     (if (''tag'', JStr tag) \<in> set (body rq) then
        (Resolved \<lparr>ok = False,
           payload = Json \<lparr>success = False, error = Some ''Tag not found''\<rparr>\<rparr>, Suc s)
      else (Resolved okResponse, Suc s))"

definition pickedEntity :: SelectedAsset where
  "pickedEntity = \<lparr>sel_id = ''g1'', sel_name = ''orders'', sel_type = ''table'',
     qualifiedName = Some ''mssql://srv/db/dbo/orders''\<rparr>"

text \<open>
  A session in which the user has chosen \<^verbatim>\<open>Confidential\<close> for the column
  \<^verbatim>\<open>col1\<close> and \<^verbatim>\<open>Internal\<close> for \<^verbatim>\<open>col2\<close>, and an answer of the
  suggestion source that proposes \<^verbatim>\<open>PII\<close> for \<^verbatim>\<open>col1\<close>.
\<close>

definition editedSession :: curate where
  "editedSession =
     editColumn ''col2'' ''Internal''
       (editColumn ''col1'' ''Confidential''
          \<lparr>columnClassifications = Map.empty, showSchemaView = True\<rparr>)"

definition piiSuggestion :: suggest_body where
  "piiSuggestion =
     \<lparr>success = True, error = None,
      suggestions = Some [(''g1'', \<lparr>has_schema = True,
         classifications = Some [(''col1'', \<lparr>info_classifications = Some [''PII'']\<rparr>)]\<rparr>)],
      total_columns = 1, total_classifications = 1, total_assets = 1\<rparr>"

subsection \<open>Example entities\<close>

text \<open>
  One storage account with its blob service, a container and a file below it, and a
  container whose blob service is not in the catalog. They are the concrete inputs of
  the evaluations below.
\<close>

definition acctEntity :: asset where
  "acctEntity = \<lparr>asset_id = ''a1'', asset_name = ''acct'',
     asset_type = ''azure_storage_account'', assetType = ''Azure Storage Account'',
     connection = ''acct.core.windows.net''\<rparr>"

definition blobEntity :: asset where
  "blobEntity = \<lparr>asset_id = ''b1'', asset_name = ''acct-blob'',
     asset_type = ''azure_blob_service'', assetType = ''Azure Blob Storage'',
     connection = ''acct.blob.core.windows.net''\<rparr>"

definition containerEntity :: asset where
  "containerEntity = \<lparr>asset_id = ''c1'', asset_name = ''raw'',
     asset_type = ''azure_blob_container'', assetType = ''Azure Blob Container'',
     connection = ''acct.blob.core.windows.net/raw''\<rparr>"

definition fileEntity :: asset where
  "fileEntity = \<lparr>asset_id = ''f1'', asset_name = ''sales.csv'',
     asset_type = ''file'', assetType = ''CSV File'',
     connection = ''acct.blob.core.windows.net/raw/sales.csv''\<rparr>"

definition strayContainer :: asset where
  "strayContainer = \<lparr>asset_id = ''c2'', asset_name = ''landing'',
     asset_type = ''azure_blob_container'', assetType = ''Azure Blob Container'',
     connection = ''other.blob.core.windows.net/landing''\<rparr>"

section \<open>Properties\<close>

subsection \<open>Selection set\<close>

lemma isSelected_iff: "isSelected sel i \<longleftrightarrow> i \<in> set (getGuids sel)"
  by (auto simp: isSelected_def getGuids_def list_ex_iff)

lemma addAsset_present: "isSelected prev (sel_id asset) \<Longrightarrow> addAsset asset prev = prev"
  by (simp add: addAsset_def isSelected_def)

lemma addAsset_new: "\<not> isSelected prev (sel_id asset) \<Longrightarrow> addAsset asset prev = prev @ [asset]"
  by (simp add: addAsset_def isSelected_def)

lemma addAsset_distinct:
  "distinct (getGuids prev) \<Longrightarrow> distinct (getGuids (addAsset asset prev))"
  by (auto simp: addAsset_def getGuids_def list_ex_iff)

text \<open>
  Claim C8. For every selection set and every entity, \<^verbatim>\<open>add\<close> with an id that is
  already present returns the set as it was, so the entries before the call are the
  entries after it, each at its position, and the id does not get a second entry; with a
  new id the entity is appended at the end and the existing entries keep their order.
  Adding the same entity twice is the same as adding it once.
\<close>

theorem addAsset_noop_or_append:
  "(isSelected prev (sel_id asset) \<longrightarrow> addAsset asset prev = prev)
   \<and> (\<not> isSelected prev (sel_id asset) \<longrightarrow> addAsset asset prev = prev @ [asset])
   \<and> addAsset asset (addAsset asset prev) = addAsset asset prev
   \<and> length (filter (\<lambda>a. sel_id a = sel_id asset) (addAsset asset prev))
       = max 1 (length (filter (\<lambda>a. sel_id a = sel_id asset) prev))"
proof (cases "isSelected prev (sel_id asset)")
  case True
  then have "filter (\<lambda>a. sel_id a = sel_id asset) prev \<noteq> []"
    by (auto simp: isSelected_def list_ex_iff filter_empty_conv)
  then have "1 \<le> length (filter (\<lambda>a. sel_id a = sel_id asset) prev)"
    by (cases "filter (\<lambda>a. sel_id a = sel_id asset) prev") simp_all
  with True show ?thesis
    by (simp add: addAsset_present max_def)
next
  case False
  then have none: "filter (\<lambda>a. sel_id a = sel_id asset) prev = []"
    by (auto simp: isSelected_def list_ex_iff filter_empty_conv)
  have again: "isSelected (prev @ [asset]) (sel_id asset)"
    by (simp add: isSelected_def)
  from False none again show ?thesis
    by (simp add: addAsset_new addAsset_present)
qed

theorem addAsset_noop_or_append_witness:
  "addAsset \<lparr>sel_id = ''g1'', sel_name = ''orders'', sel_type = ''table'', qualifiedName = None\<rparr>
     [\<lparr>sel_id = ''g1'', sel_name = ''orders'', sel_type = ''table'', qualifiedName = None\<rparr>,
      \<lparr>sel_id = ''g2'', sel_name = ''users'', sel_type = ''table'', qualifiedName = None\<rparr>]
   = [\<lparr>sel_id = ''g1'', sel_name = ''orders'', sel_type = ''table'', qualifiedName = None\<rparr>,
      \<lparr>sel_id = ''g2'', sel_name = ''users'', sel_type = ''table'', qualifiedName = None\<rparr>]
   \<and> addAsset \<lparr>sel_id = ''g3'', sel_name = ''files'', sel_type = ''file'', qualifiedName = None\<rparr>
     [\<lparr>sel_id = ''g1'', sel_name = ''orders'', sel_type = ''table'', qualifiedName = None\<rparr>]
   = [\<lparr>sel_id = ''g1'', sel_name = ''orders'', sel_type = ''table'', qualifiedName = None\<rparr>,
      \<lparr>sel_id = ''g3'', sel_name = ''files'', sel_type = ''file'', qualifiedName = None\<rparr>]"
  using addAsset_noop_or_append
    [of "[\<lparr>sel_id = ''g1'', sel_name = ''orders'', sel_type = ''table'', qualifiedName = None\<rparr>,
          \<lparr>sel_id = ''g2'', sel_name = ''users'', sel_type = ''table'', qualifiedName = None\<rparr>]"
        "\<lparr>sel_id = ''g1'', sel_name = ''orders'', sel_type = ''table'', qualifiedName = None\<rparr>"]
    addAsset_noop_or_append
    [of "[\<lparr>sel_id = ''g1'', sel_name = ''orders'', sel_type = ''table'', qualifiedName = None\<rparr>]"
        "\<lparr>sel_id = ''g3'', sel_name = ''files'', sel_type = ''file'', qualifiedName = None\<rparr>"]
  by (simp add: isSelected_def)

subsection \<open>Recently clicked list\<close>

lemma handleAssetClick_step:
  assumes "distinct (parseRecent stored)"
  shows "length (parseRecent (handleAssetClick a stored)) \<le> 10"
    and "parseRecent (handleAssetClick a stored) \<noteq> []"
    and "hd (parseRecent (handleAssetClick a stored)) = a"
    and "distinct (parseRecent (handleAssetClick a stored))"
  using assms
  by (auto simp: handleAssetClick_def parseRecent_def Let_def take_Cons'
      dest: in_set_takeD split: slot.splits)

lemma count_list_once: "distinct xs \<Longrightarrow> x \<in> set xs \<Longrightarrow> count_list xs x = 1"
  by (induction xs) auto

lemma browseAssetClick_distinct:
  "distinct (parseRecent stored) \<Longrightarrow> distinct (parseRecent (browseAssetClick a stored))"
  by (auto simp: browseAssetClick_def parseRecent_def Let_def take_Cons'
      dest: in_set_takeD split: slot.splits)

lemma clicks_snoc: "clicks (cs @ [c]) stored = clickOn (clicks cs stored) c"
  by (simp add: clicks_def)

lemma clicks_distinct:
  "distinct (parseRecent stored) \<Longrightarrow> distinct (parseRecent (clicks cs stored))"
proof (induction cs rule: rev_induct)
  case Nil
  then show ?case by (simp add: clicks_def)
next
  case (snoc c cs)
  then show ?case
    by (cases c)
      (simp_all add: clicks_snoc clickOn_def handleAssetClick_step(4) browseAssetClick_distinct)
qed

text \<open>
  Claim C9. Start from a slot that is absent, unreadable or holds a list without
  duplicates, and let any sequence of clicks on the two pages that write the slot follow,
  the last one a click on the dashboard that records \<open>assetId\<close>. The persisted list
  then has at most 10 entries, has \<open>assetId\<close> at the front, has no duplicate, and so
  holds \<open>assetId\<close> once, also when it was in the list before.
\<close>

theorem recentAssets_capped_front_distinct:
  assumes "distinct (parseRecent stored)"
  shows "length (parseRecent (clicks (cs @ [OnDashboard assetId]) stored)) \<le> 10
    \<and> parseRecent (clicks (cs @ [OnDashboard assetId]) stored) \<noteq> []
    \<and> hd (parseRecent (clicks (cs @ [OnDashboard assetId]) stored)) = assetId
    \<and> distinct (parseRecent (clicks (cs @ [OnDashboard assetId]) stored))
    \<and> count_list (parseRecent (clicks (cs @ [OnDashboard assetId]) stored)) assetId = 1"
proof -
  let ?r = "parseRecent (clicks (cs @ [OnDashboard assetId]) stored)"
  have d: "distinct (parseRecent (clicks cs stored))"
    using assms by (rule clicks_distinct)
  have len: "length ?r \<le> 10" and ne: "?r \<noteq> []" and front: "hd ?r = assetId"
    and dist: "distinct ?r"
    using handleAssetClick_step [OF d, of assetId] by (simp_all add: clicks_snoc clickOn_def)
  from ne front have "assetId \<in> set ?r"
    by (metis hd_in_set)
  with dist have "count_list ?r assetId = 1"
    by (rule count_list_once)
  with len ne front dist show ?thesis by simp
qed

theorem recentAssets_capped_front_distinct_witness:
  "distinct (parseRecent (Stored [''a'', ''b'']))
   \<and> parseRecent (clicks ([OnDashboard ''c'', OnBrowse fileEntity, OnBrowse containerEntity]
        @ [OnDashboard ''b'']) (Stored [''a'', ''b''])) = [''b'', ''f1'', ''c'', ''a'']
   \<and> length (parseRecent (clicks ([OnDashboard ''c'', OnBrowse fileEntity,
        OnBrowse containerEntity] @ [OnDashboard ''b'']) (Stored [''a'', ''b'']))) \<le> 10
   \<and> count_list (parseRecent (clicks ([OnDashboard ''c'', OnBrowse fileEntity,
        OnBrowse containerEntity] @ [OnDashboard ''b'']) (Stored [''a'', ''b'']))) ''b'' = 1"
proof -
  have h: "distinct (parseRecent (Stored [''a'', ''b'']))"
    by (simp add: parseRecent_def)
  have v: "parseRecent (clicks ([OnDashboard ''c'', OnBrowse fileEntity, OnBrowse containerEntity]
        @ [OnDashboard ''b'']) (Stored [''a'', ''b''])) = [''b'', ''f1'', ''c'', ''a'']"
    by (simp add: clicks_def clickOn_def handleAssetClick_def browseAssetClick_def
        parseRecent_def fileEntity_def containerEntity_def)
  from h v recentAssets_capped_front_distinct [OF h,
      of "[OnDashboard ''c'', OnBrowse fileEntity, OnBrowse containerEntity]" "''b''"]
  show ?thesis
    by simp
qed

subsection \<open>Selecting in the storage tree\<close>

lemma those_map_inverse:
  "those (map f cs) = Some ns \<Longrightarrow> (\<And>c n. c \<in> set cs \<Longrightarrow> f c = Some n \<Longrightarrow> g n = c)
   \<Longrightarrow> map g ns = cs"
proof (induction cs arbitrary: ns)
  case Nil
  then show ?case by simp
next
  case (Cons c cs)
  then show ?case
    by (auto split: option.splits)
qed

lemma renderStorageNode_entity:
  "renderStorageNode fuel h a children = Some n \<Longrightarrow> entity n = a"
  by (cases fuel) auto

lemma renderStorageNode_subnodes:
  assumes "renderStorageNode fuel h a children = Some n"
  shows "map entity (subnodes n) = children"
proof (cases fuel)
  case 0
  with assms show ?thesis by simp
next
  case (Suc k)
  with assms obtain ns where
    ns: "those (map (\<lambda>child. renderStorageNode k h child (childChildren h child)) children)
         = Some ns"
    and n: "n = Node a ns"
    by auto
  have "map entity ns = children"
    using ns by (rule those_map_inverse) (rule renderStorageNode_entity)
  with n show ?thesis by simp
qed

text \<open>
  Claim C7. Let \<open>n\<close> be the node that \<^verbatim>\<open>renderStorageNode\<close> draws for an entity.
  If \<open>n\<close> has at least one child, the select handler of that node returns the
  selection set it was given: nothing is added, nothing is removed, and the handler ends
  normally (it is a total function with no error result). If \<open>n\<close> is a leaf and its
  entity is not selected, the handler appends the entity's snapshot.
\<close>

theorem handleSelect_nonleaf_noop:
  assumes "renderStorageNode fuel h a children = Some n"
  shows "(subnodes n \<noteq> [] \<longrightarrow> handleSelect a children selectedAssets = selectedAssets)
    \<and> (subnodes n = [] \<and> \<not> isSelected selectedAssets (asset_id a) \<longrightarrow>
         handleSelect a children selectedAssets
         = selectedAssets @ [\<lparr>sel_id = asset_id a, sel_name = asset_name a,
              sel_type = asset_type a, qualifiedName = Some (connection a)\<rparr>])"
proof -
  have "map entity (subnodes n) = children"
    using assms by (rule renderStorageNode_subnodes)
  then have "subnodes n = [] \<longleftrightarrow> children = []"
    by auto
  then show ?thesis
    by (auto simp: handleSelect_def addAsset_def isSelected_def)
qed

theorem handleSelect_nonleaf_noop_witness:
  "renderStorageNode (Suc (Suc 0)) emptyHierarchy acctEntity [blobEntity]
     = Some (Node acctEntity [Node blobEntity []])
   \<and> handleSelect acctEntity [blobEntity] [] = []
   \<and> renderStorageNode (Suc 0) emptyHierarchy fileEntity [] = Some (Node fileEntity [])
   \<and> handleSelect fileEntity [] []
     = [\<lparr>sel_id = ''f1'', sel_name = ''sales.csv'', sel_type = ''file'',
          qualifiedName = Some ''acct.blob.core.windows.net/raw/sales.csv''\<rparr>]"
proof -
  have r: "renderStorageNode (Suc (Suc 0)) emptyHierarchy acctEntity [blobEntity]
     = Some (Node acctEntity [Node blobEntity []])"
    by (simp add: childChildren_def childrenAt_def emptyHierarchy_def blobEntity_def)
  have l: "renderStorageNode (Suc 0) emptyHierarchy fileEntity [] = Some (Node fileEntity [])"
    by simp
  from r l handleSelect_nonleaf_noop [OF r, of "[]"] handleSelect_nonleaf_noop [OF l, of "[]"]
  show ?thesis
    by (simp add: isSelected_def fileEntity_def)
qed

subsection \<open>Removing all tags\<close>

lemma decimal_digits:
  "decimal (Suc 0) = ''1''" "decimal (Suc (Suc 0)) = ''2''" "decimal (Suc (Suc (Suc 0))) = ''3''"
  by code_simp+

lemma succeedsAll_answersAll: "succeedsAll srv s rqs \<Longrightarrow> answersAll srv s rqs"
  by (induction rqs arbitrary: s) (auto split: prod.splits fetch_result.splits)

lemma removeEachTag_answered:
  "answersAll srv s (map (removeTagsRequest guids) tags) \<Longrightarrow>
   removeEachTag srv s guids tags
   = (map (removeTagsRequest guids) tags, None,
      backendAfter srv s (map (removeTagsRequest guids) tags))"
proof (induction tags arbitrary: s)
  case Nil
  then show ?case by simp
next
  case (Cons t ts)
  then show ?case
    by (auto split: prod.splits fetch_result.splits)
qed

lemma removeEachTag_rejected:
  "\<not> answersAll srv s (map (removeTagsRequest guids) tags) \<Longrightarrow>
   \<exists>k msg. k < length tags
     \<and> answersAll srv s (map (removeTagsRequest guids) (take k tags))
     \<and> fst (srv (backendAfter srv s (map (removeTagsRequest guids) (take k tags)))
              (removeTagsRequest guids (tags ! k))) = Rejected msg
     \<and> removeEachTag srv s guids tags
       = (map (removeTagsRequest guids) (take (Suc k) tags), Some msg,
          backendAfter srv s (map (removeTagsRequest guids) (take (Suc k) tags)))"
proof (induction tags arbitrary: s)
  case Nil
  then show ?case by simp
next
  case (Cons t ts)
  show ?case
  proof (cases "srv s (removeTagsRequest guids t)")
    case (Pair r s')
    show ?thesis
    proof (cases r)
      case (Rejected msg)
      with Pair have "0 < length (t # ts)
        \<and> answersAll srv s (map (removeTagsRequest guids) (take 0 (t # ts)))
        \<and> fst (srv (backendAfter srv s (map (removeTagsRequest guids) (take 0 (t # ts))))
              (removeTagsRequest guids ((t # ts) ! 0))) = Rejected msg
        \<and> removeEachTag srv s guids (t # ts)
          = (map (removeTagsRequest guids) (take (Suc 0) (t # ts)), Some msg,
             backendAfter srv s (map (removeTagsRequest guids) (take (Suc 0) (t # ts))))"
        by simp
      then show ?thesis by blast
    next
      case (Resolved resp)
      with Pair Cons.prems have "\<not> answersAll srv s' (map (removeTagsRequest guids) ts)"
        by simp
      from Cons.IH [OF this] obtain k msg where k: "k < length ts"
        and a: "answersAll srv s' (map (removeTagsRequest guids) (take k ts))"
        and r: "fst (srv (backendAfter srv s' (map (removeTagsRequest guids) (take k ts)))
              (removeTagsRequest guids (ts ! k))) = Rejected msg"
        and e: "removeEachTag srv s' guids ts
          = (map (removeTagsRequest guids) (take (Suc k) ts), Some msg,
             backendAfter srv s' (map (removeTagsRequest guids) (take (Suc k) ts)))"
        by blast
      from Pair Resolved k a r e have "Suc k < length (t # ts)
        \<and> answersAll srv s (map (removeTagsRequest guids) (take (Suc k) (t # ts)))
        \<and> fst (srv (backendAfter srv s
                (map (removeTagsRequest guids) (take (Suc k) (t # ts))))
              (removeTagsRequest guids ((t # ts) ! Suc k))) = Rejected msg
        \<and> removeEachTag srv s guids (t # ts)
          = (map (removeTagsRequest guids) (take (Suc (Suc k)) (t # ts)), Some msg,
             backendAfter srv s
               (map (removeTagsRequest guids) (take (Suc (Suc k)) (t # ts))))"
        by simp
      then show ?thesis by blast
    qed
  qed
qed





text \<open>
  Claim C3, as stated, fails. With three tags and a backend that rejects the request for
  the second, the third request is never sent, and what the handler reports is one
  error toast with the message of the rejection: no count of what succeeded or failed
  and no key. With a backend that answers the second request with an error status
  instead, all three requests are sent, and the report is the one success toast: again
  no count of what failed and no key.
\<close>

theorem removeAllTags_aborts_counterexample:
  "sent (handleRemoveAllTags True (failingOn ''B'') 0 [pickedEntity] [''A'', ''B'', ''C''])
     = [removeTagsRequest [''g1''] ''A'', removeTagsRequest [''g1''] ''B'']
   \<and> toasts (handleRemoveAllTags True (failingOn ''B'') 0 [pickedEntity] [''A'', ''B'', ''C''])
     = [\<lparr>title = '' Error Removing Tags'', description = ''Failed to fetch'',
         variant = Some ''destructive''\<rparr>]
   \<and> sent (handleRemoveAllTags True (refusingOn ''B'') 0 [pickedEntity] [''A'', ''B'', ''C''])
     = [removeTagsRequest [''g1''] ''A'', removeTagsRequest [''g1''] ''B'',
        removeTagsRequest [''g1''] ''C'']
   \<and> toasts (handleRemoveAllTags True (refusingOn ''B'') 0 [pickedEntity] [''A'', ''B'', ''C''])
     = [\<lparr>title = '' All Tags Removed Successfully'',
         description = ''Removed 3 tag(s) from 1 asset(s)'', variant = Some ''success''\<rparr>]"
  by (simp add: handleRemoveAllTags_def failingOn_def refusingOn_def removeTagsRequest_def
      getGuids_def pickedEntity_def decimal_digits)

text \<open>
  Claim C3, amended. For a selection and a list of tags that are not empty and a
  confirmed dialog: the requests are sent for the tags in order. If the backend answers
  every request with a success, every tag's request is sent and the handler reports one
  success toast with the number of tags and the number of selected assets. If the backend
  rejects a request, that request is the last one sent, the tags after it are not
  attempted, and the handler reports one error toast whose text is the message of that
  rejection.
\<close>

theorem removeAllTags_stops_at_rejection:
  assumes "selectedAssets \<noteq> []" and "existingTags \<noteq> []" and "confirmed"
  shows "(succeedsAll srv s (map (removeTagsRequest (getGuids selectedAssets)) existingTags) \<longrightarrow>
        sent (handleRemoveAllTags confirmed srv s selectedAssets existingTags)
          = map (removeTagsRequest (getGuids selectedAssets)) existingTags
        \<and> toasts (handleRemoveAllTags confirmed srv s selectedAssets existingTags)
          = [\<lparr>title = '' All Tags Removed Successfully'',
              description = ''Removed '' @ decimal (length existingTags)
                @ '' tag(s) from '' @ decimal (length selectedAssets) @ '' asset(s)'',
              variant = Some ''success''\<rparr>]
        \<and> refreshed (handleRemoveAllTags confirmed srv s selectedAssets existingTags))
    \<and> (\<not> answersAll srv s (map (removeTagsRequest (getGuids selectedAssets)) existingTags) \<longrightarrow>
        (\<exists>k msg. k < length existingTags
          \<and> answersAll srv s
              (map (removeTagsRequest (getGuids selectedAssets)) (take k existingTags))
          \<and> fst (srv (backendAfter srv s
                 (map (removeTagsRequest (getGuids selectedAssets)) (take k existingTags)))
               (removeTagsRequest (getGuids selectedAssets) (existingTags ! k))) = Rejected msg
          \<and> sent (handleRemoveAllTags confirmed srv s selectedAssets existingTags)
            = map (removeTagsRequest (getGuids selectedAssets)) (take (Suc k) existingTags)
          \<and> toasts (handleRemoveAllTags confirmed srv s selectedAssets existingTags)
            = [\<lparr>title = '' Error Removing Tags'', description = msg,
                variant = Some ''destructive''\<rparr>]
          \<and> \<not> refreshed (handleRemoveAllTags confirmed srv s selectedAssets existingTags)))"
proof (intro conjI impI)
  assume "succeedsAll srv s (map (removeTagsRequest (getGuids selectedAssets)) existingTags)"
  then have a: "answersAll srv s
      (map (removeTagsRequest (getGuids selectedAssets)) existingTags)"
    by (rule succeedsAll_answersAll)
  from assms removeEachTag_answered [OF a]
  show "sent (handleRemoveAllTags confirmed srv s selectedAssets existingTags)
          = map (removeTagsRequest (getGuids selectedAssets)) existingTags"
    and "toasts (handleRemoveAllTags confirmed srv s selectedAssets existingTags)
          = [\<lparr>title = '' All Tags Removed Successfully'',
              description = ''Removed '' @ decimal (length existingTags)
                @ '' tag(s) from '' @ decimal (length selectedAssets) @ '' asset(s)'',
              variant = Some ''success''\<rparr>]"
    and "refreshed (handleRemoveAllTags confirmed srv s selectedAssets existingTags)"
    by (simp_all add: handleRemoveAllTags_def)
next
  assume "\<not> answersAll srv s (map (removeTagsRequest (getGuids selectedAssets)) existingTags)"
  from removeEachTag_rejected [OF this] obtain k msg where k: "k < length existingTags"
    and a: "answersAll srv s
              (map (removeTagsRequest (getGuids selectedAssets)) (take k existingTags))"
    and r: "fst (srv (backendAfter srv s
                 (map (removeTagsRequest (getGuids selectedAssets)) (take k existingTags)))
               (removeTagsRequest (getGuids selectedAssets) (existingTags ! k))) = Rejected msg"
    and e: "removeEachTag srv s (getGuids selectedAssets) existingTags
       = (map (removeTagsRequest (getGuids selectedAssets)) (take (Suc k) existingTags),
          Some msg,
          backendAfter srv s
            (map (removeTagsRequest (getGuids selectedAssets)) (take (Suc k) existingTags)))"
    by blast
  from assms e have "sent (handleRemoveAllTags confirmed srv s selectedAssets existingTags)
            = map (removeTagsRequest (getGuids selectedAssets)) (take (Suc k) existingTags)
          \<and> toasts (handleRemoveAllTags confirmed srv s selectedAssets existingTags)
            = [\<lparr>title = '' Error Removing Tags'', description = msg,
                variant = Some ''destructive''\<rparr>]
          \<and> \<not> refreshed (handleRemoveAllTags confirmed srv s selectedAssets existingTags)"
    by (simp add: handleRemoveAllTags_def)
  with k a r show "\<exists>k msg. k < length existingTags
          \<and> answersAll srv s
              (map (removeTagsRequest (getGuids selectedAssets)) (take k existingTags))
          \<and> fst (srv (backendAfter srv s
                 (map (removeTagsRequest (getGuids selectedAssets)) (take k existingTags)))
               (removeTagsRequest (getGuids selectedAssets) (existingTags ! k))) = Rejected msg
          \<and> sent (handleRemoveAllTags confirmed srv s selectedAssets existingTags)
            = map (removeTagsRequest (getGuids selectedAssets)) (take (Suc k) existingTags)
          \<and> toasts (handleRemoveAllTags confirmed srv s selectedAssets existingTags)
            = [\<lparr>title = '' Error Removing Tags'', description = msg,
                variant = Some ''destructive''\<rparr>]
          \<and> \<not> refreshed (handleRemoveAllTags confirmed srv s selectedAssets existingTags)"
    by blast
qed

theorem removeAllTags_stops_at_rejection_witness:
  "[pickedEntity] \<noteq> [] \<and> [''A'', ''B''] \<noteq> []
   \<and> succeedsAll countingBackend 0
       (map (removeTagsRequest (getGuids [pickedEntity])) [''A'', ''B''])
   \<and> sent (handleRemoveAllTags True countingBackend 0 [pickedEntity] [''A'', ''B''])
     = [removeTagsRequest [''g1''] ''A'', removeTagsRequest [''g1''] ''B'']
   \<and> toasts (handleRemoveAllTags True countingBackend 0 [pickedEntity] [''A'', ''B''])
     = [\<lparr>title = '' All Tags Removed Successfully'',
         description = ''Removed 2 tag(s) from 1 asset(s)'', variant = Some ''success''\<rparr>]"
proof -
  have a: "succeedsAll countingBackend 0
       (map (removeTagsRequest (getGuids [pickedEntity])) [''A'', ''B''])"
    by (simp add: countingBackend_def okResponse_def)
  have n: "[pickedEntity] \<noteq> []" and t: "[''A'', ''B''] \<noteq> []" by simp_all
  from a removeAllTags_stops_at_rejection [OF n t TrueI, of countingBackend 0] show ?thesis
    by (simp add: getGuids_def pickedEntity_def decimal_digits)
qed

subsection \<open>Removing one named contact\<close>





subsection \<open>Suggestions and the user's edits\<close>

lemma columns_fold_Some:
  "foldl (\<lambda>m (columnGuid, columnInfo).
      case info_classifications columnInfo of
        None \<Rightarrow> m
      | Some cs \<Rightarrow> if cs \<noteq> [] then m(columnGuid \<mapsto> cs) else m) m cols k = Some cs
   \<Longrightarrow> m k = Some cs
     \<or> (cs \<noteq> [] \<and> list_ex (\<lambda>(c, columnInfo). c = k \<and> info_classifications columnInfo = Some cs) cols)"
proof (induction cols arbitrary: cs rule: rev_induct)
  case Nil
  then show ?case by simp
next
  case (snoc x cols)
  then show ?case
    by (cases x) (auto split: option.splits if_splits)
qed

lemma columns_fold_dom:
  "m k \<noteq> None \<or> list_ex (\<lambda>(c, columnInfo). c = k \<and> (\<exists>cs. info_classifications columnInfo = Some cs \<and> cs \<noteq> [])) cols
   \<Longrightarrow> foldl (\<lambda>m (columnGuid, columnInfo).
      case info_classifications columnInfo of
        None \<Rightarrow> m
      | Some cs \<Rightarrow> if cs \<noteq> [] then m(columnGuid \<mapsto> cs) else m) m cols k \<noteq> None"
proof (induction cols rule: rev_induct)
  case Nil
  then show ?case by simp
next
  case (snoc x cols)
  then show ?case
    by (cases x) (auto split: option.splits if_splits)
qed

lemma newColumnClassifications_snoc:
  "newColumnClassifications (sugg @ [(g, ed)]) =
     (if has_schema ed then
        (case classifications ed of
           None \<Rightarrow> newColumnClassifications sugg
         | Some cols \<Rightarrow>
             foldl (\<lambda>m (columnGuid, columnInfo).
                case info_classifications columnInfo of
                  None \<Rightarrow> m
                | Some cs \<Rightarrow> if cs \<noteq> [] then m(columnGuid \<mapsto> cs) else m)
               (newColumnClassifications sugg) cols)
      else newColumnClassifications sugg)"
  by (cases "classifications ed") (simp_all add: newColumnClassifications_def)

lemma suggestedFor_snoc:
  "suggestedFor (sugg @ [(g, ed)]) k cs \<longleftrightarrow>
     suggestedFor sugg k cs
     \<or> (cs \<noteq> [] \<and> has_schema ed \<and>
        (case classifications ed of
            None \<Rightarrow> False
          | Some cols \<Rightarrow>
              list_ex (\<lambda>(c, columnInfo). c = k \<and> info_classifications columnInfo = Some cs) cols))"
  by (auto simp: suggestedFor_def)

lemma newColumnClassifications_Some:
  "newColumnClassifications sugg k = Some cs \<Longrightarrow> suggestedFor sugg k cs"
proof (induction sugg arbitrary: cs rule: rev_induct)
  case Nil
  then show ?case by (simp add: newColumnClassifications_def)
next
  case (snoc x sugg)
  obtain g ed where x: "x = (g, ed)" by (cases x)
  show ?case
  proof (cases "has_schema ed")
    case False
    with snoc x show ?thesis
      by (simp add: newColumnClassifications_snoc suggestedFor_snoc)
  next
    case True
    show ?thesis
    proof (cases "classifications ed")
      case None
      with snoc x True show ?thesis
        by (simp add: newColumnClassifications_snoc suggestedFor_snoc)
    next
      case (Some cols)
      with snoc.prems x True columns_fold_Some [of "newColumnClassifications sugg" cols k cs]
      have "newColumnClassifications sugg k = Some cs
        \<or> (cs \<noteq> [] \<and> list_ex (\<lambda>(c, columnInfo). c = k \<and> info_classifications columnInfo = Some cs) cols)"
        by (simp add: newColumnClassifications_snoc)
      with snoc.IH x True Some show ?thesis
        by (auto simp: suggestedFor_snoc)
    qed
  qed
qed

lemma newColumnClassifications_dom:
  "suggestedFor sugg k cs \<Longrightarrow> newColumnClassifications sugg k \<noteq> None"
proof (induction sugg rule: rev_induct)
  case Nil
  then show ?case by (simp add: suggestedFor_def)
next
  case (snoc x sugg)
  obtain g ed where x: "x = (g, ed)" by (cases x)
  show ?case
  proof (cases "has_schema ed")
    case False
    with snoc x show ?thesis
      by (simp add: newColumnClassifications_snoc suggestedFor_snoc)
  next
    case True
    show ?thesis
    proof (cases "classifications ed")
      case None
      with snoc x True show ?thesis
        by (simp add: newColumnClassifications_snoc suggestedFor_snoc)
    next
      case (Some cols)
      from snoc x True Some have "newColumnClassifications sugg k \<noteq> None
        \<or> list_ex (\<lambda>(c, columnInfo). c = k \<and> (\<exists>cs. info_classifications columnInfo = Some cs \<and> cs \<noteq> [])) cols"
        by (auto simp: suggestedFor_snoc list_ex_iff)
      then have "foldl (\<lambda>m (columnGuid, columnInfo).
                case info_classifications columnInfo of
                  None \<Rightarrow> m
                | Some cs \<Rightarrow> if cs \<noteq> [] then m(columnGuid \<mapsto> cs) else m)
               (newColumnClassifications sugg) cols k \<noteq> None"
        by (rule columns_fold_dom)
      with x True Some show ?thesis
        by (simp add: newColumnClassifications_snoc)
    qed
  qed
qed

text \<open>
  Claim C4, as stated, fails. The user has chosen \<^verbatim>\<open>Confidential\<close> for
  \<^verbatim>\<open>col1\<close> and \<^verbatim>\<open>Internal\<close> for \<^verbatim>\<open>col2\<close>; the suggestion source proposes
  \<^verbatim>\<open>PII\<close> for \<^verbatim>\<open>col1\<close>. After the suggestions are taken in, \<^verbatim>\<open>col1\<close> holds
  the suggestion and \<^verbatim>\<open>col2\<close> holds nothing: both edits are gone.
\<close>

theorem suggestions_overwrite_edit_counterexample:
  "columnClassifications editedSession ''col1'' = Some [''Confidential'']
   \<and> columnClassifications editedSession ''col2'' = Some [''Internal'']
   \<and> columnClassifications (fst (handleAutoClassify [pickedEntity] (Reply True piiSuggestion)
        (Thrown ''Failed to fetch'') editedSession)) ''col1'' = Some [''PII'']
   \<and> columnClassifications (fst (handleAutoClassify [pickedEntity] (Reply True piiSuggestion)
        (Thrown ''Failed to fetch'') editedSession)) ''col2'' = None"
  by (simp add: handleAutoClassify_def fetchSchema_def editedSession_def editColumn_def
      piiSuggestion_def newColumnClassifications_def)

text \<open>
  Claim C4, amended. When column-level suggestions are taken in (the selection is not
  empty and the answer is a success that counts at least one classification and one
  column), the pending map becomes the map of the non-empty suggestions, whatever it held
  before: a column has an entry exactly if there is a non-empty suggestion for it, the
  entry is a suggested value, and an edit the user made before changes nothing in the
  result. With any other answer the state, and with it every edit, stays as it was.
\<close>

theorem suggestions_replace_pending_map:
  "(selectedAssets \<noteq> [] \<and> isOk \<and> success d \<and> 0 < total_classifications d
      \<and> 0 < total_columns d \<longrightarrow>
      columnClassifications
         (fst (handleAutoClassify selectedAssets (Reply isOk d) schemaAnswer st))
        = newColumnClassifications (case suggestions d of None \<Rightarrow> [] | Some sg \<Rightarrow> sg)
      \<and> (\<forall>k cs. columnClassifications
              (fst (handleAutoClassify selectedAssets (Reply isOk d) schemaAnswer st)) k = Some cs
            \<longrightarrow> suggestedFor (case suggestions d of None \<Rightarrow> [] | Some sg \<Rightarrow> sg) k cs)
      \<and> (\<forall>k cs. suggestedFor (case suggestions d of None \<Rightarrow> [] | Some sg \<Rightarrow> sg) k cs
            \<longrightarrow> columnClassifications
              (fst (handleAutoClassify selectedAssets (Reply isOk d) schemaAnswer st)) k \<noteq> None)
      \<and> columnClassifications
           (fst (handleAutoClassify selectedAssets (Reply isOk d) schemaAnswer
              (editColumn columnGuid v st)))
        = columnClassifications
           (fst (handleAutoClassify selectedAssets (Reply isOk d) schemaAnswer st)))
   \<and> (selectedAssets = [] \<or> \<not> isOk \<or> \<not> success d \<or> total_classifications d = 0
        \<or> total_columns d = 0 \<longrightarrow>
      fst (handleAutoClassify selectedAssets (Reply isOk d) schemaAnswer st) = st)
   \<and> fst (handleAutoClassify selectedAssets (Thrown msg) schemaAnswer st) = st"
proof (intro conjI impI)
  assume a: "selectedAssets \<noteq> [] \<and> isOk \<and> success d \<and> 0 < total_classifications d
      \<and> 0 < total_columns d"
  have r: "columnClassifications
         (fst (handleAutoClassify selectedAssets (Reply isOk d) schemaAnswer st'))
        = newColumnClassifications (case suggestions d of None \<Rightarrow> [] | Some sg \<Rightarrow> sg)"
    for st'
    using a by (simp add: handleAutoClassify_def split: prod.splits)
  show "columnClassifications
         (fst (handleAutoClassify selectedAssets (Reply isOk d) schemaAnswer st))
        = newColumnClassifications (case suggestions d of None \<Rightarrow> [] | Some sg \<Rightarrow> sg)"
    by (rule r)
  show "\<forall>k cs. columnClassifications
              (fst (handleAutoClassify selectedAssets (Reply isOk d) schemaAnswer st)) k = Some cs
            \<longrightarrow> suggestedFor (case suggestions d of None \<Rightarrow> [] | Some sg \<Rightarrow> sg) k cs"
    unfolding r by (blast intro: newColumnClassifications_Some)
  show "\<forall>k cs. suggestedFor (case suggestions d of None \<Rightarrow> [] | Some sg \<Rightarrow> sg) k cs
            \<longrightarrow> columnClassifications
              (fst (handleAutoClassify selectedAssets (Reply isOk d) schemaAnswer st)) k \<noteq> None"
    unfolding r by (blast dest: newColumnClassifications_dom)
  show "columnClassifications
           (fst (handleAutoClassify selectedAssets (Reply isOk d) schemaAnswer
              (editColumn columnGuid v st)))
        = columnClassifications
           (fst (handleAutoClassify selectedAssets (Reply isOk d) schemaAnswer st))"
    by (simp only: r)
next
  assume "selectedAssets = [] \<or> \<not> isOk \<or> \<not> success d \<or> total_classifications d = 0
        \<or> total_columns d = 0"
  then show "fst (handleAutoClassify selectedAssets (Reply isOk d) schemaAnswer st) = st"
    by (auto simp: handleAutoClassify_def)
next
  show "fst (handleAutoClassify selectedAssets (Thrown msg) schemaAnswer st) = st"
    by (simp add: handleAutoClassify_def)
qed

theorem suggestions_replace_pending_map_witness:
  "[pickedEntity] \<noteq> [] \<and> success piiSuggestion \<and> 0 < total_classifications piiSuggestion
   \<and> 0 < total_columns piiSuggestion
   \<and> suggestedFor [(''g1'', \<lparr>has_schema = True,
         classifications = Some [(''col1'', \<lparr>info_classifications = Some [''PII'']\<rparr>)]\<rparr>)]
       ''col1'' [''PII'']
   \<and> columnClassifications (fst (handleAutoClassify [pickedEntity] (Reply True piiSuggestion)
        (Thrown ''Failed to fetch'') editedSession)) ''col1'' \<noteq> None
   \<and> columnClassifications (fst (handleAutoClassify [pickedEntity] (Reply True piiSuggestion)
        (Thrown ''Failed to fetch'') (editColumn ''col1'' ''Secret'' editedSession)))
     = columnClassifications (fst (handleAutoClassify [pickedEntity] (Reply True piiSuggestion)
        (Thrown ''Failed to fetch'') editedSession))"
proof -
  have h: "[pickedEntity] \<noteq> [] \<and> True \<and> success piiSuggestion
      \<and> 0 < total_classifications piiSuggestion \<and> 0 < total_columns piiSuggestion"
    by (simp add: piiSuggestion_def)
  have f: "suggestedFor (case suggestions piiSuggestion of None \<Rightarrow> [] | Some sg \<Rightarrow> sg)
      ''col1'' [''PII'']"
    by (simp add: suggestedFor_def piiSuggestion_def)
  have g: "(case suggestions piiSuggestion of None \<Rightarrow> [] | Some sg \<Rightarrow> sg)
     = [(''g1'', \<lparr>has_schema = True,
         classifications = Some [(''col1'', \<lparr>info_classifications = Some [''PII'']\<rparr>)]\<rparr>)]"
    by (simp add: piiSuggestion_def)
  note t = suggestions_replace_pending_map
    [of "[pickedEntity]" True piiSuggestion "Thrown ''Failed to fetch''" editedSession
        "''col1''" "''Secret''" "''none''"]
  from t h f have "columnClassifications (fst (handleAutoClassify [pickedEntity]
        (Reply True piiSuggestion) (Thrown ''Failed to fetch'') editedSession)) ''col1'' \<noteq> None"
    by blast
  moreover from t h have "columnClassifications (fst (handleAutoClassify [pickedEntity]
        (Reply True piiSuggestion) (Thrown ''Failed to fetch'')
        (editColumn ''col1'' ''Secret'' editedSession)))
     = columnClassifications (fst (handleAutoClassify [pickedEntity] (Reply True piiSuggestion)
        (Thrown ''Failed to fetch'') editedSession))"
    by blast
  ultimately show ?thesis
    using h f unfolding g by simp
qed

subsection \<open>Grouping by type\<close>

lemma map_of_pushAt:
  "map_of (pushAt k v acc) = (map_of acc)(k \<mapsto> (case map_of acc k of None \<Rightarrow> [] | Some vs \<Rightarrow> vs) @ [v])"
  by (induction acc) (auto simp: fun_eq_iff)

lemma keys_pushAt: "set (map fst (pushAt k v acc)) = insert k (set (map fst acc))"
  by (induction acc) force+

lemma distinct_pushAt: "distinct (map fst acc) \<Longrightarrow> distinct (map fst (pushAt k v acc))"
proof (induction acc)
  case Nil
  then show ?case by simp
next
  case (Cons p acc)
  obtain k' vs where p: "p = (k', vs)" by (cases p)
  from Cons p show ?case
    using keys_pushAt [of k v acc] by auto
qed

lemma assetsByType_snoc:
  "assetsByType (ys @ [a]) = pushAt (assetType a) a (assetsByType ys)"
  by (simp add: assetsByType_def)

lemma map_of_assetsByType:
  "map_of (assetsByType ys) t =
     (if t \<in> assetType ` set ys then Some (filter (\<lambda>a. assetType a = t) ys) else None)"
proof (induction ys rule: rev_induct)
  case Nil
  then show ?case by (simp add: assetsByType_def)
next
  case (snoc a ys)
  show ?case
  proof (cases "t = assetType a")
    case False
    with snoc show ?thesis
      by (simp add: assetsByType_snoc map_of_pushAt)
  next
    case True
    show ?thesis
    proof (cases "assetType a \<in> assetType ` set ys")
      case seen: True
      with snoc True show ?thesis
        by (simp add: assetsByType_snoc map_of_pushAt)
    next
      case fresh: False
      then have "filter (\<lambda>x. assetType x = assetType a) ys = []"
        unfolding filter_empty_conv by (metis imageI)
      with snoc True fresh show ?thesis
        by (simp add: assetsByType_snoc map_of_pushAt)
    qed
  qed
qed

lemma distinct_assetsByType: "distinct (map fst (assetsByType ys))"
proof (induction ys rule: rev_induct)
  case Nil
  then show ?case by (simp add: assetsByType_def)
next
  case (snoc a ys)
  then show ?case by (simp add: assetsByType_snoc distinct_pushAt)
qed

lemma byType_assetsByType:
  "byType (assetsByType ys) t = filter (\<lambda>a. assetType a = t) ys"
proof (cases "t \<in> assetType ` set ys")
  case True
  then show ?thesis by (simp add: byType_def map_of_assetsByType)
next
  case False
  then have "filter (\<lambda>a. assetType a = t) ys = []"
    by (auto simp: filter_empty_conv)
  with False show ?thesis by (simp add: byType_def map_of_assetsByType)
qed

lemma assetsByType_entry:
  assumes "(t, as) \<in> set (assetsByType ys)"
  shows "as = filter (\<lambda>a. assetType a = t) ys"
proof -
  from assms distinct_assetsByType have "map_of (assetsByType ys) t = Some as"
    by (rule map_of_is_SomeI [rotated])
  then show ?thesis
    by (simp add: map_of_assetsByType split: if_splits)
qed

subsection \<open>The tree, level by level\<close>

lemma childrenAt_upd [simp]:
  "childrenAt (m(k \<mapsto> cs)) k' = (if k' = k then cs else childrenAt m k')"
  by (simp add: childrenAt_def)

lemma childrenAt_push [simp]:
  "childrenAt (push m k a) k' = (if k' = k then childrenAt m k @ [a] else childrenAt m k')"
  by (simp add: push_def)

lemma childrenAt_empty [simp]: "childrenAt Map.empty k = []"
  by (simp add: childrenAt_def)

lemma wellKinded_empty: "wellKinded emptyHierarchy"
  by (simp add: wellKinded_def emptyHierarchy_def)

lemma wellKinded_organize: "wellKinded h \<Longrightarrow> wellKinded (organize h a)"
  unfolding wellKinded_def organize_def Let_def
  by (simp split: if_splits)

lemma wellKinded_foldl: "wellKinded h \<Longrightarrow> wellKinded (foldl organize h xs)"
  by (induction xs arbitrary: h) (simp_all add: wellKinded_organize)

lemma wellKinded_build: "wellKinded (buildStorageHierarchy xs)"
  by (simp add: buildStorageHierarchy_def wellKinded_foldl wellKinded_empty)

lemma those_map_Some: "(\<And>x. x \<in> set xs \<Longrightarrow> f x = Some (g x)) \<Longrightarrow> those (map f xs) = Some (map g xs)"
  by (induction xs) simp_all

lemma render_file:
  assumes "assetType f \<noteq> ''Azure Storage Account''" "assetType f \<noteq> ''Azure Blob Storage''"
    "assetType f \<noteq> ''Azure Blob Container''"
  shows "renderStorageNode (Suc n) h f (childChildren h f) = Some (fileNode f)"
  using assms by (simp add: childChildren_def fileNode_def)

lemma render_container:
  assumes "wellKinded h" "assetType c = ''Azure Blob Container''"
  shows "renderStorageNode (Suc (Suc n)) h c (childChildren h c) = Some (containerNode h c)"
proof -
  have cc: "childChildren h c = childrenAt (containerChildren h) (connection c)"
    using assms(2) by (simp add: childChildren_def)
  have "those (map (\<lambda>child. renderStorageNode (Suc n) h child (childChildren h child))
      (childrenAt (containerChildren h) (connection c)))
      = Some (map fileNode (childrenAt (containerChildren h) (connection c)))"
    using assms(1) by (intro those_map_Some render_file) (auto simp: wellKinded_def)
  then show ?thesis
    by (simp add: cc containerNode_def)
qed

lemma render_blobStorage:
  assumes "wellKinded h" "assetType b = ''Azure Blob Storage''"
  shows "renderStorageNode (Suc (Suc (Suc n))) h b (childChildren h b) = Some (blobStorageNode h b)"
proof -
  have cc: "childChildren h b = childrenAt (blobStorageChildren h) (connection b)"
    using assms(2) by (simp add: childChildren_def)
  have "those (map (\<lambda>child. renderStorageNode (Suc (Suc n)) h child (childChildren h child))
      (childrenAt (blobStorageChildren h) (connection b)))
      = Some (map (containerNode h) (childrenAt (blobStorageChildren h) (connection b)))"
    using assms(1) by (intro those_map_Some render_container) (auto simp: wellKinded_def)
  then show ?thesis
    by (simp add: cc blobStorageNode_def)
qed

lemma render_account:
  assumes "wellKinded h"
  shows "renderStorageNode (Suc (Suc (Suc (Suc n)))) h a
      (childrenAt (accountChildren h) (connection a)) = Some (accountNode h a)"
proof -
  have "those (map (\<lambda>child. renderStorageNode (Suc (Suc (Suc n))) h child (childChildren h child))
      (childrenAt (accountChildren h) (connection a)))
      = Some (map (blobStorageNode h) (childrenAt (accountChildren h) (connection a)))"
    using assms by (intro those_map_Some render_blobStorage) (auto simp: wellKinded_def)
  then show ?thesis
    by (simp add: accountNode_def)
qed

lemma renderHierarchy_levels:
  assumes "wellKinded h" "4 \<le> fuel"
  shows "renderHierarchy fuel h = Some (map (accountNode h) (accounts h))"
proof -
  from assms(2) have "fuel = Suc (Suc (Suc (Suc (fuel - 4))))"
    by arith
  then obtain n where n: "fuel = Suc (Suc (Suc (Suc n)))" ..
  show ?thesis
    unfolding renderHierarchy_def n
    by (rule those_map_Some) (rule render_account [OF assms(1)])
qed

subsection \<open>What the hierarchy of the page holds\<close>

lemma accounts_phase:
  "\<forall>a \<in> set as. assetType a = ''Azure Storage Account'' \<Longrightarrow>
   accounts (foldl organize h as) = accounts h @ as
   \<and> childrenAt (accountChildren (foldl organize h as)) k
     = (if k \<in> connection ` set as then [] else childrenAt (accountChildren h) k)"
proof (induction as arbitrary: h)
  case Nil
  then show ?case by simp
next
  case (Cons a as)
  then show ?case
    by (auto simp: organize_def)
qed

lemma blobStorage_phase:
  "\<forall>b \<in> set bs. assetType b = ''Azure Blob Storage'' \<Longrightarrow>
   accounts (foldl organize h bs) = accounts h
   \<and> childrenAt (accountChildren (foldl organize h bs)) k
     = childrenAt (accountChildren h) k @ filter (\<lambda>b. accountUrlOf (connection b) = k) bs"
proof (induction bs arbitrary: h)
  case Nil
  then show ?case by simp
next
  case (Cons b bs)
  then show ?case
    by (auto simp: organize_def Let_def)
qed

lemma lower_phase:
  "\<forall>x \<in> set xs. assetType x \<noteq> ''Azure Storage Account'' \<and> assetType x \<noteq> ''Azure Blob Storage'' \<Longrightarrow>
   accounts (foldl organize h xs) = accounts h
   \<and> accountChildren (foldl organize h xs) = accountChildren h"
proof (induction xs arbitrary: h)
  case Nil
  then show ?case by simp
next
  case (Cons x xs)
  then show ?case
    by (auto simp: organize_def Let_def)
qed

lemma no_File_in_kinds:
  "\<not> includes_str ''Azure Storage Account'' ''File''"
  "\<not> includes_str ''Azure Blob Storage'' ''File''"
  "\<not> includes_str ''Azure Blob Container'' ''File''"
  by simp_all

lemma allStorageAssets_split:
  "allStorageAssets acc
   = byType acc ''Azure Storage Account'' @ byType acc ''Azure Blob Storage'' @ lowerAssets acc"
  by (simp add: allStorageAssets_def lowerAssets_def fileAssets_def)

lemma lowerAssets_kinds:
  assumes "x \<in> set (lowerAssets (assetsByType ys))"
  shows "assetType x \<noteq> ''Azure Storage Account'' \<and> assetType x \<noteq> ''Azure Blob Storage''"
proof -
  from assms consider
    (known) t where "t \<in> {''Azure Blob Container'', ''Azure Blob'', ''CSV File'', ''JSON File'',
        ''PARQUET File'', ''TXT File'', ''XML File''}" "assetType x = t"
    | (other) t as where "(t, as) \<in> set (assetsByType ys)" "includes_str t ''File''" "x \<in> set as"
    by (auto simp: lowerAssets_def fileAssets_def byType_assetsByType)
  then show ?thesis
  proof cases
    case known
    then show ?thesis by auto
  next
    case other
    from other(1) have "as = filter (\<lambda>a. assetType a = t) ys"
      by (rule assetsByType_entry)
    with other(3) have "assetType x = t" by simp
    with other(2) no_File_in_kinds show ?thesis by auto
  qed
qed

lemma hierarchy_accounts:
  "accounts (buildStorageHierarchy (allStorageAssets (assetsByType ys)))
   = filter (\<lambda>a. assetType a = ''Azure Storage Account'') ys"
  and hierarchy_accountChildren:
  "childrenAt (accountChildren (buildStorageHierarchy (allStorageAssets (assetsByType ys)))) k
   = filter (\<lambda>b. accountUrlOf (connection b) = k)
       (filter (\<lambda>a. assetType a = ''Azure Blob Storage'') ys)"
proof -
  let ?A = "filter (\<lambda>a. assetType a = ''Azure Storage Account'') ys"
  let ?B = "filter (\<lambda>a. assetType a = ''Azure Blob Storage'') ys"
  let ?L = "lowerAssets (assetsByType ys)"
  let ?h1 = "foldl organize emptyHierarchy ?A"
  let ?h2 = "foldl organize ?h1 ?B"
  have build: "buildStorageHierarchy (allStorageAssets (assetsByType ys)) = foldl organize ?h2 ?L"
    by (simp add: buildStorageHierarchy_def allStorageAssets_split byType_assetsByType)
  have p1: "accounts ?h1 = ?A" "\<And>k. childrenAt (accountChildren ?h1) k = []"
    using accounts_phase [of ?A emptyHierarchy] by (simp_all add: emptyHierarchy_def)
  have p2: "accounts ?h2 = ?A"
    "\<And>k. childrenAt (accountChildren ?h2) k = filter (\<lambda>b. accountUrlOf (connection b) = k) ?B"
    using blobStorage_phase [of ?B ?h1] p1 by simp_all
  have p3: "accounts (foldl organize ?h2 ?L) = accounts ?h2"
    "accountChildren (foldl organize ?h2 ?L) = accountChildren ?h2"
    using lower_phase [of ?L ?h2] lowerAssets_kinds [of _ ys] by blast+
  show "accounts (buildStorageHierarchy (allStorageAssets (assetsByType ys))) = ?A"
    by (simp only: build p3 p2)
  show "childrenAt (accountChildren (buildStorageHierarchy (allStorageAssets (assetsByType ys)))) k
   = filter (\<lambda>b. accountUrlOf (connection b) = k) ?B"
    by (simp only: build p3 p2)
qed

lemma storageForest_levels:
  assumes "4 \<le> fuel"
  shows "storageForest fuel ys
    = Some (map (accountNode (buildStorageHierarchy (allStorageAssets (assetsByType ys))))
        (filter (\<lambda>a. assetType a = ''Azure Storage Account'') ys))"
  unfolding storageForest_def
  by (simp only: renderHierarchy_levels [OF wellKinded_build assms] hierarchy_accounts)

text \<open>
  Claim C5. Whatever else the page lists, if it lists a storage account with the
  qualified name \<^verbatim>\<open>acct.core.windows.net\<close> and a blob service with the qualified
  name \<^verbatim>\<open>acct.blob.core.windows.net\<close>, the forest has a node for the account and
  the blob service is the entity of one of the nodes directly below it: the suffix
  \<^verbatim>\<open>.blob.core.windows.net\<close> of the blob service is rewritten to
  \<^verbatim>\<open>.core.windows.net\<close> before the lookup. Fuel 4 is enough for the forest.
\<close>

theorem blobStorage_attached_to_account:
  assumes "4 \<le> fuel"
    and "a \<in> set filteredAssets" and "assetType a = ''Azure Storage Account''"
    and "connection a = ''acct.core.windows.net''"
    and "b \<in> set filteredAssets" and "assetType b = ''Azure Blob Storage''"
    and "connection b = ''acct.blob.core.windows.net''"
  shows "\<exists>forest ns. storageForest fuel filteredAssets = Some forest
     \<and> Node a ns \<in> set forest \<and> b \<in> set (map entity ns)"
proof -
  let ?h = "buildStorageHierarchy (allStorageAssets (assetsByType filteredAssets))"
  let ?forest = "map (accountNode ?h) (filter (\<lambda>a. assetType a = ''Azure Storage Account'') filteredAssets)"
  let ?ns = "map (blobStorageNode ?h) (childrenAt (accountChildren ?h) (connection a))"
  have f: "storageForest fuel filteredAssets = Some ?forest"
    using assms(1) by (rule storageForest_levels)
  have "accountNode ?h a \<in> set ?forest"
    using assms(2,3) by simp
  then have n: "Node a ?ns \<in> set ?forest"
    by (simp only: accountNode_def)
  have url: "accountUrlOf (connection b) = connection a"
    by (simp add: assms(4,7) accountUrlOf_def)
  have "b \<in> set (childrenAt (accountChildren ?h) (connection a))"
    using assms(5,6) url by (simp add: hierarchy_accountChildren)
  then have "b \<in> set (map entity ?ns)"
    by (simp add: blobStorageNode_def image_iff comp_def)
  with f n show ?thesis by blast
qed

theorem blobStorage_attached_to_account_witness:
  "(4::nat) \<le> 4
   \<and> acctEntity \<in> set [fileEntity, blobEntity, acctEntity]
   \<and> assetType acctEntity = ''Azure Storage Account''
   \<and> connection acctEntity = ''acct.core.windows.net''
   \<and> blobEntity \<in> set [fileEntity, blobEntity, acctEntity]
   \<and> assetType blobEntity = ''Azure Blob Storage''
   \<and> connection blobEntity = ''acct.blob.core.windows.net''
   \<and> (\<exists>forest ns. storageForest 4 [fileEntity, blobEntity, acctEntity] = Some forest
        \<and> Node acctEntity ns \<in> set forest \<and> blobEntity \<in> set (map entity ns))"
proof -
  have h: "(4::nat) \<le> 4" "acctEntity \<in> set [fileEntity, blobEntity, acctEntity]"
    "assetType acctEntity = ''Azure Storage Account''"
    "connection acctEntity = ''acct.core.windows.net''"
    "blobEntity \<in> set [fileEntity, blobEntity, acctEntity]"
    "assetType blobEntity = ''Azure Blob Storage''"
    "connection blobEntity = ''acct.blob.core.windows.net''"
    by (simp_all add: acctEntity_def blobEntity_def)
  from h blobStorage_attached_to_account [OF h] show ?thesis
    by simp
qed

subsection \<open>The lower levels of the hierarchy\<close>

lemma lowerAssets_split:
  "lowerAssets acc = byType acc ''Azure Blob Container'' @ fileAssets acc"
  by (simp add: lowerAssets_def)

lemma fileAssets_kinds:
  assumes "x \<in> set (fileAssets (assetsByType ys))"
  shows "isFileKind x \<and> x \<in> set ys"
proof -
  from assms consider
    (known) t where "t \<in> {''Azure Blob'', ''CSV File'', ''JSON File'',
        ''PARQUET File'', ''TXT File'', ''XML File''}" "assetType x = t" "x \<in> set ys"
    | (other) t as where "(t, as) \<in> set (assetsByType ys)" "includes_str t ''File''" "x \<in> set as"
    by (auto simp: fileAssets_def byType_assetsByType)
  then show ?thesis
  proof cases
    case known
    then show ?thesis by (auto simp: isFileKind_def)
  next
    case other
    from other(1) have "as = filter (\<lambda>a. assetType a = t) ys"
      by (rule assetsByType_entry)
    with other(3) have "assetType x = t" "x \<in> set ys" by simp_all
    with other(2) no_File_in_kinds show ?thesis by (auto simp: isFileKind_def)
  qed
qed

lemma fileAssets_complete:
  assumes "x \<in> set ys" "isFileKind x"
  shows "x \<in> set (fileAssets (assetsByType ys))"
proof (cases "assetType x \<in> {''Azure Blob'', ''CSV File'', ''JSON File'',
        ''PARQUET File'', ''TXT File'', ''XML File''}")
  case True
  with assms(1) show ?thesis
    by (auto simp: fileAssets_def byType_assetsByType)
next
  case False
  with assms(2) have inc: "includes_str (assetType x) ''File''"
    and nk: "assetType x \<notin> set knownFileTypes"
    by (auto simp: isFileKind_def knownFileTypes_def)
  from assms(1) have "map_of (assetsByType ys) (assetType x)
      = Some (filter (\<lambda>a. assetType a = assetType x) ys)"
    by (simp add: map_of_assetsByType)
  then have "(assetType x, filter (\<lambda>a. assetType a = assetType x) ys) \<in> set (assetsByType ys)"
    by (rule map_of_SomeD)
  with inc nk assms(1) show ?thesis
    by (fastforce simp: fileAssets_def)
qed

lemma accounts_phase_lower:
  "\<forall>a \<in> set as. assetType a = ''Azure Storage Account'' \<Longrightarrow>
   blobStorageChildren (foldl organize h as) = blobStorageChildren h
   \<and> containerChildren (foldl organize h as) = containerChildren h"
proof (induction as arbitrary: h)
  case Nil
  then show ?case by simp
next
  case (Cons a as)
  then show ?case
    by (auto simp: organize_def)
qed

lemma blobStorage_phase_lower:
  "\<forall>b \<in> set bs. assetType b = ''Azure Blob Storage'' \<Longrightarrow>
   childrenAt (blobStorageChildren (foldl organize h bs)) k
     = (if k \<in> connection ` set bs then [] else childrenAt (blobStorageChildren h) k)
   \<and> containerChildren (foldl organize h bs) = containerChildren h"
proof (induction bs arbitrary: h)
  case Nil
  then show ?case by simp
next
  case (Cons b bs)
  then show ?case
    by (auto simp: organize_def Let_def)
qed

lemma container_phase:
  "\<forall>c \<in> set cs. assetType c = ''Azure Blob Container'' \<Longrightarrow>
   childrenAt (blobStorageChildren (foldl organize h cs)) k
     = childrenAt (blobStorageChildren h) k @ filter (\<lambda>c. parentUrlOf (connection c) = k) cs
   \<and> childrenAt (containerChildren (foldl organize h cs)) k
     = (if k \<in> connection ` set cs then [] else childrenAt (containerChildren h) k)"
proof (induction cs arbitrary: h)
  case Nil
  then show ?case by simp
next
  case (Cons c cs)
  then show ?case
    by (auto simp: organize_def Let_def)
qed

lemma file_phase:
  "\<forall>f \<in> set fs. isFileKind f \<Longrightarrow>
   blobStorageChildren (foldl organize h fs) = blobStorageChildren h
   \<and> childrenAt (containerChildren (foldl organize h fs)) k
     = childrenAt (containerChildren h) k @ filter (\<lambda>f. parentUrlOf (connection f) = k) fs"
proof (induction fs arbitrary: h)
  case Nil
  then show ?case by simp
next
  case (Cons f fs)
  then show ?case
    by (auto simp: organize_def Let_def isFileKind_def)
qed

lemma hierarchy_blobStorageChildren:
  "childrenAt (blobStorageChildren (buildStorageHierarchy (allStorageAssets (assetsByType ys)))) k
   = filter (\<lambda>c. parentUrlOf (connection c) = k)
       (filter (\<lambda>a. assetType a = ''Azure Blob Container'') ys)"
  and hierarchy_containerChildren:
  "childrenAt (containerChildren (buildStorageHierarchy (allStorageAssets (assetsByType ys)))) k
   = filter (\<lambda>f. parentUrlOf (connection f) = k) (fileAssets (assetsByType ys))"
proof -
  let ?A = "filter (\<lambda>a. assetType a = ''Azure Storage Account'') ys"
  let ?B = "filter (\<lambda>a. assetType a = ''Azure Blob Storage'') ys"
  let ?C = "filter (\<lambda>a. assetType a = ''Azure Blob Container'') ys"
  let ?F = "fileAssets (assetsByType ys)"
  let ?h1 = "foldl organize emptyHierarchy ?A"
  let ?h2 = "foldl organize ?h1 ?B"
  let ?h3 = "foldl organize ?h2 ?C"
  have build: "buildStorageHierarchy (allStorageAssets (assetsByType ys)) = foldl organize ?h3 ?F"
    by (simp add: buildStorageHierarchy_def allStorageAssets_split lowerAssets_split
        byType_assetsByType)
  have p1: "\<And>k. childrenAt (blobStorageChildren ?h1) k = []"
    "\<And>k. childrenAt (containerChildren ?h1) k = []"
    using accounts_phase_lower [of ?A emptyHierarchy] by (simp_all add: emptyHierarchy_def)
  have p2: "\<And>k. childrenAt (blobStorageChildren ?h2) k = []"
    "\<And>k. childrenAt (containerChildren ?h2) k = []"
    using blobStorage_phase_lower [of ?B ?h1] p1 by simp_all
  have p3: "\<And>k. childrenAt (blobStorageChildren ?h3) k
      = filter (\<lambda>c. parentUrlOf (connection c) = k) ?C"
    "\<And>k. childrenAt (containerChildren ?h3) k = []"
    using container_phase [of ?C ?h2] p2 by simp_all
  have fk: "\<forall>f \<in> set ?F. isFileKind f"
    using fileAssets_kinds by blast
  have p4: "blobStorageChildren (foldl organize ?h3 ?F) = blobStorageChildren ?h3"
    "\<And>k. childrenAt (containerChildren (foldl organize ?h3 ?F)) k
      = filter (\<lambda>f. parentUrlOf (connection f) = k) ?F"
    using file_phase [OF fk, of ?h3] p3 by simp_all
  show "childrenAt (blobStorageChildren (buildStorageHierarchy (allStorageAssets (assetsByType ys)))) k
   = filter (\<lambda>c. parentUrlOf (connection c) = k) ?C"
    by (simp only: build p4 p3)
  show "childrenAt (containerChildren (buildStorageHierarchy (allStorageAssets (assetsByType ys)))) k
   = filter (\<lambda>f. parentUrlOf (connection f) = k) ?F"
    by (simp only: build p4)
qed

subsection \<open>Which entities the forest holds\<close>

lemma forestAssets_accountNodes:
  "x \<in> set (forestAssets (map (accountNode h) as)) \<longleftrightarrow>
     (\<exists>a \<in> set as. x = a
        \<or> (\<exists>b \<in> set (childrenAt (accountChildren h) (connection a)). x = b
             \<or> (\<exists>c \<in> set (childrenAt (blobStorageChildren h) (connection b)). x = c
                  \<or> x \<in> set (childrenAt (containerChildren h) (connection c)))))"
  by (auto simp: forestAssets_def accountNode_def blobStorageNode_def containerNode_def
      fileNode_def)

lemma fileAssets_iff:
  "x \<in> set (fileAssets (assetsByType ys)) \<longleftrightarrow> x \<in> set ys \<and> isFileKind x"
  using fileAssets_kinds fileAssets_complete by blast

lemma forest_membership:
  assumes "4 \<le> fuel"
  shows "\<exists>forest. storageForest fuel ys = Some forest \<and>
    (x \<in> set (forestAssets forest) \<longleftrightarrow>
       (\<exists>a \<in> set ys. assetType a = ''Azure Storage Account'' \<and> (x = a
          \<or> (\<exists>b \<in> set ys. assetType b = ''Azure Blob Storage''
                \<and> accountUrlOf (connection b) = connection a \<and> (x = b
             \<or> (\<exists>c \<in> set ys. assetType c = ''Azure Blob Container''
                   \<and> parentUrlOf (connection c) = connection b \<and> (x = c
                \<or> (x \<in> set ys \<and> isFileKind x
                     \<and> parentUrlOf (connection x) = connection c))))))))"
proof -
  let ?h = "buildStorageHierarchy (allStorageAssets (assetsByType ys))"
  have "x \<in> set (forestAssets (map (accountNode ?h)
        (filter (\<lambda>a. assetType a = ''Azure Storage Account'') ys))) \<longleftrightarrow>
       (\<exists>a \<in> set ys. assetType a = ''Azure Storage Account'' \<and> (x = a
          \<or> (\<exists>b \<in> set ys. assetType b = ''Azure Blob Storage''
                \<and> accountUrlOf (connection b) = connection a \<and> (x = b
             \<or> (\<exists>c \<in> set ys. assetType c = ''Azure Blob Container''
                   \<and> parentUrlOf (connection c) = connection b \<and> (x = c
                \<or> (x \<in> set ys \<and> isFileKind x
                     \<and> parentUrlOf (connection x) = connection c)))))))"
    unfolding forestAssets_accountNodes hierarchy_accountChildren hierarchy_blobStorageChildren
      hierarchy_containerChildren
    by (simp add: fileAssets_iff Bex_def conj_ac)
  with storageForest_levels [OF assms, of ys] show ?thesis
    by simp
qed

text \<open>
  An entity below the account level whose computed parent path is the qualified name of
  no entity of the page is in no node of the forest.
\<close>

lemma unattached_entity_absent:
  assumes "4 \<le> fuel" and "assetType x \<noteq> ''Azure Storage Account''"
    and "\<forall>p \<in> set ys. connection p \<noteq> parentKey x"
  shows "\<exists>forest. storageForest fuel ys = Some forest \<and> x \<notin> set (forestAssets forest)"
proof -
  from forest_membership [OF assms(1), of ys x] obtain forest
    where f: "storageForest fuel ys = Some forest"
    and m: "x \<in> set (forestAssets forest) \<longleftrightarrow>
       (\<exists>a \<in> set ys. assetType a = ''Azure Storage Account'' \<and> (x = a
          \<or> (\<exists>b \<in> set ys. assetType b = ''Azure Blob Storage''
                \<and> accountUrlOf (connection b) = connection a \<and> (x = b
             \<or> (\<exists>c \<in> set ys. assetType c = ''Azure Blob Container''
                   \<and> parentUrlOf (connection c) = connection b \<and> (x = c
                \<or> (x \<in> set ys \<and> isFileKind x
                     \<and> parentUrlOf (connection x) = connection c)))))))"
    by blast
  have k: "assetType x = ''Azure Blob Storage'' \<Longrightarrow> parentKey x = accountUrlOf (connection x)"
    "assetType x = ''Azure Blob Container'' \<Longrightarrow> parentKey x = parentUrlOf (connection x)"
    "isFileKind x \<Longrightarrow> parentKey x = parentUrlOf (connection x)"
    by (simp_all add: parentKey_def isFileKind_def)
  have "x \<notin> set (forestAssets forest)"
    unfolding m using assms(2,3) k by metis
  with f show ?thesis by blast
qed

lemma example_keys:
  "accountUrlOf ''acct.blob.core.windows.net'' = ''acct.core.windows.net''"
  "parentUrlOf ''acct.blob.core.windows.net/raw'' = ''acct.blob.core.windows.net''"
  "parentUrlOf ''acct.blob.core.windows.net/raw/sales.csv'' = ''acct.blob.core.windows.net/raw''"
  "parentUrlOf ''other.blob.core.windows.net/landing'' = ''other.blob.core.windows.net''"
  by (simp_all add: accountUrlOf_def parentUrlOf_def substring0_def)

lemma storageForest_closed:
  assumes "4 \<le> fuel"
  shows "storageForest fuel ys = Some
    (map (\<lambda>a. Node a
       (map (\<lambda>b. Node b
          (map (\<lambda>c. Node c
             (map (\<lambda>f. Node f [])
                (filter (\<lambda>f. parentUrlOf (connection f) = connection c)
                   (fileAssets (assetsByType ys)))))
             (filter (\<lambda>c. parentUrlOf (connection c) = connection b)
                (filter (\<lambda>c. assetType c = ''Azure Blob Container'') ys))))
          (filter (\<lambda>b. accountUrlOf (connection b) = connection a)
             (filter (\<lambda>b. assetType b = ''Azure Blob Storage'') ys))))
       (filter (\<lambda>a. assetType a = ''Azure Storage Account'') ys))"
proof -
  let ?h = "buildStorageHierarchy (allStorageAssets (assetsByType ys))"
  have "accountNode ?h = (\<lambda>a. Node a
       (map (\<lambda>b. Node b
          (map (\<lambda>c. Node c
             (map (\<lambda>f. Node f [])
                (filter (\<lambda>f. parentUrlOf (connection f) = connection c)
                   (fileAssets (assetsByType ys)))))
             (filter (\<lambda>c. parentUrlOf (connection c) = connection b)
                (filter (\<lambda>c. assetType c = ''Azure Blob Container'') ys))))
          (filter (\<lambda>b. accountUrlOf (connection b) = connection a)
             (filter (\<lambda>b. assetType b = ''Azure Blob Storage'') ys))))"
    by (rule ext, simp only: accountNode_def hierarchy_accountChildren)
       (simp add: blobStorageNode_def containerNode_def fileNode_def
          hierarchy_blobStorageChildren hierarchy_containerChildren)
  with storageForest_levels [OF assms, of ys] show ?thesis
    by simp
qed

lemma storageForest_roots:
  assumes "4 \<le> fuel"
  shows "\<exists>forest. storageForest fuel ys = Some forest
     \<and> map entity forest = filter (\<lambda>a. assetType a = ''Azure Storage Account'') ys"
  by (simp add: storageForest_closed [OF assms] comp_def)

text \<open>
  Claim C1, evaluated on a page with a storage account, its blob service, a container and
  a file below it, and one more container, \<^verbatim>\<open>other.blob.core.windows.net/landing\<close>,
  whose blob service is not in the catalog. The forest has the four entities of the
  account's tree; the fifth entity is in no node. The resolver has it in
  \<^verbatim>\<open>blobStorageChildren\<close> under \<^verbatim>\<open>other.blob.core.windows.net\<close>, a key that
  no node of the forest looks up.
\<close>

theorem forest_omits_unattached_container:
  "storageForest 4 [strayContainer, acctEntity, blobEntity, containerEntity, fileEntity]
     = Some [Node acctEntity [Node blobEntity [Node containerEntity [Node fileEntity []]]]]
   \<and> childrenAt (blobStorageChildren (buildStorageHierarchy (allStorageAssets
        (assetsByType [strayContainer, acctEntity, blobEntity, containerEntity, fileEntity]))))
        ''other.blob.core.windows.net'' = [strayContainer]"
proof -
  have four: "(4::nat) \<le> 4" by simp
  show ?thesis
    apply (simp only: storageForest_closed [OF four] hierarchy_blobStorageChildren
        fileAssets_def byType_assetsByType)
    apply (simp add: assetsByType_def knownFileTypes_def example_keys
        strayContainer_def acctEntity_def blobEntity_def containerEntity_def fileEntity_def)
    done
qed

text \<open>
  Claim C2, evaluated on a page with a storage account, its blob service and the
  container \<^verbatim>\<open>other.blob.core.windows.net/landing\<close>. The computed parent path of
  the container, \<^verbatim>\<open>other.blob.core.windows.net\<close>, is the qualified name of no
  entity of the page. The container is not a top-level node, and it is in no node at all:
  the forest is the account with its blob service below it. The resolver holds the
  container in \<^verbatim>\<open>blobStorageChildren\<close> under the computed parent path, where no
  node of the forest looks it up.
\<close>

theorem unattached_container_not_top_level:
  "storageForest 4 [acctEntity, blobEntity, strayContainer]
     = Some [Node acctEntity [Node blobEntity []]]
   \<and> parentKey strayContainer = ''other.blob.core.windows.net''
   \<and> ''other.blob.core.windows.net''
       \<notin> set (map connection [acctEntity, blobEntity, strayContainer])
   \<and> childrenAt (blobStorageChildren (buildStorageHierarchy (allStorageAssets
        (assetsByType [acctEntity, blobEntity, strayContainer]))))
        ''other.blob.core.windows.net'' = [strayContainer]"
proof -
  have four: "(4::nat) \<le> 4" by simp
  show ?thesis
    apply (simp only: storageForest_closed [OF four] hierarchy_blobStorageChildren
        fileAssets_def byType_assetsByType)
    apply (simp add: assetsByType_def knownFileTypes_def example_keys parentKey_def
        strayContainer_def acctEntity_def blobEntity_def)
    done
qed

end
